theory Spec2Isabelle
  imports Main "HOL-Library.AList" "HOL-Library.Sublist"
begin

section \<open>PathTrie (vs/base/common/pathTrie)\<close>

text \<open>
  A \<open>PathTrieNode<T>\<close> has an optional payload \<open>data\<close>, a map \<open>next\<close> from path
  segment to child node (the selector \<open>nexts\<close>, as \<open>next\<close> is a keyword) and a back
  reference \<open>prev\<close> to its parent. The JavaScript \<open>Map\<close> keeps its keys in
  insertion order, so \<open>next\<close> is an association list with distinct keys:
  \<open>AList.update\<close> overwrites in place or appends, as \<open>Map.set\<close> does, and
  \<open>AList.delete\<close> is \<open>Map.delete\<close>. An undefined \<open>next\<close> and an empty one are
  the same list \<open>[]\<close>: every read of the source goes through
  \<open>cur.next?.get(segment)\<close> or iterates the map, and neither tells them apart.

  The nodes form a tree that only \<open>ensureNode\<close> extends, and it sets \<open>child.prev = cur\<close>
  exactly when it stores \<open>child\<close> under \<open>cur\<close>; so the \<open>prev\<close> of a node reached
  from the root is the node it was reached from. The tree is therefore a value, and
  \<open>prev\<close> is the enclosing node of the traversal.
\<close>

datatype 'a PathTrieNode =
  PathTrieNode (data: "'a option") (nexts: "(string \<times> 'a PathTrieNode) list")

type_synonym 'a PathTrie = "'a PathTrieNode"

text \<open>\<open>new PathTrie<T>()\<close>: the root is a fresh node.\<close>

definition new_PathTrie :: "'a PathTrie" where
  "new_PathTrie = PathTrieNode None []"

text \<open>
  \<open>path.split(/[\\/]/)\<close>: the pieces between separators, a slash or a backslash
  (\<open>CHR 0x5C\<close>); the split of the empty string is the one empty piece.
\<close>

primrec split_path :: "string \<Rightarrow> string list" where
  "split_path [] = [[]]"
| "split_path (c # cs) =
     (if c = CHR ''/'' \<or> c = CHR 0x5C then [] # split_path cs
      else (case split_path cs of [] \<Rightarrow> [[c]] | w # ws \<Rightarrow> (c # w) # ws))"

text \<open>\<open>toSegments\<close>: the split, without the empty pieces (\<open>filter(path => !!path)\<close>).\<close>

definition toSegments :: "string \<Rightarrow> string list" where
  "toSegments path = filter (\<lambda>path. path \<noteq> []) (split_path path)"

text \<open>
  \<open>set(path, data)\<close> is \<open>this.ensureNode(path).data = data\<close>. The loop of
  \<open>ensureNode\<close> walks the segments from \<open>cur\<close>, creating each missing child, and the
  assignment stores the payload in the node the walk ends in.
\<close>

fun set_from :: "'a PathTrieNode \<Rightarrow> string list \<Rightarrow> 'a \<Rightarrow> 'a PathTrieNode" where
  "set_from cur [] d = PathTrieNode (Some d) (nexts cur)"
| "set_from cur (segment # segments) d =
     (case map_of (nexts cur) segment of
        None \<Rightarrow>
          PathTrieNode (data cur)
            (AList.update segment (set_from (PathTrieNode None []) segments d) (nexts cur))
      | Some child \<Rightarrow>
          PathTrieNode (data cur)
            (AList.update segment (set_from child segments d) (nexts cur)))"

definition PathTrie_set :: "string \<Rightarrow> 'a \<Rightarrow> 'a PathTrie \<Rightarrow> 'a PathTrie" where
  "PathTrie_set path d root = set_from root (toSegments path) d"

text \<open>The loop of \<open>findNode\<close>: \<open>undefined\<close> (here \<open>None\<close>) at the first missing child.\<close>

fun findNode_from :: "'a PathTrieNode \<Rightarrow> string list \<Rightarrow> 'a PathTrieNode option" where
  "findNode_from cur [] = Some cur"
| "findNode_from cur (segment # segments) =
     (case map_of (nexts cur) segment of
        None \<Rightarrow> None
      | Some child \<Rightarrow> findNode_from child segments)"

definition findNode :: "'a PathTrie \<Rightarrow> string \<Rightarrow> 'a PathTrieNode option" where
  "findNode root path = findNode_from root (toSegments path)"

text \<open>\<open>get(path)\<close> is \<open>this.findNode(path)?.data\<close>.\<close>

definition PathTrie_get :: "'a PathTrie \<Rightarrow> string \<Rightarrow> 'a option" where
  "PathTrie_get root path =
     (case findNode root path of None \<Rightarrow> None | Some node \<Rightarrow> data node)"

text \<open>
  \<open>delete(path)\<close> walks to the node of the path, returning at the first missing child,
  and then runs \<open>cur.prev?.next?.delete(segments[segments.length - 1])\<close>: the entry of
  the last segment is removed from the map of the node before the last. With no
  segments \<open>cur\<close> is the root, whose \<open>prev\<close> is undefined, and nothing happens.
\<close>

fun delete_from :: "'a PathTrieNode \<Rightarrow> string list \<Rightarrow> 'a PathTrieNode" where
  "delete_from cur [] = cur"
| "delete_from cur [segment] =
     (case map_of (nexts cur) segment of
        None \<Rightarrow> cur
      | Some child \<Rightarrow> PathTrieNode (data cur) (AList.delete segment (nexts cur)))"
| "delete_from cur (segment # segments) =
     (case map_of (nexts cur) segment of
        None \<Rightarrow> cur
      | Some child \<Rightarrow>
          PathTrieNode (data cur)
            (AList.update segment (delete_from child segments) (nexts cur)))"

definition PathTrie_delete :: "string \<Rightarrow> 'a PathTrie \<Rightarrow> 'a PathTrie" where
  "PathTrie_delete path root = delete_from root (toSegments path)"

text \<open>
  \<open>findSubstr(path)\<close> is a generator; the list is the sequence of the values it
  yields. It yields inside the loop, after stepping to the child, and under
  \<open>if (cur.data)\<close>: the test is JavaScript truthiness of the payload, which depends
  on the type \<open>T\<close> and is the parameter \<open>truthy\<close>.
\<close>

fun findSubstr_from :: "('a \<Rightarrow> bool) \<Rightarrow> 'a PathTrieNode \<Rightarrow> string list \<Rightarrow> 'a list" where
  "findSubstr_from truthy cur [] = []"
| "findSubstr_from truthy cur (segment # segments) =
     (case map_of (nexts cur) segment of
        None \<Rightarrow> []
      | Some child \<Rightarrow>
          (case data child of
             None \<Rightarrow> []
           | Some d \<Rightarrow> if truthy d then [d] else [])
          @ findSubstr_from truthy child segments)"

definition PathTrie_findSubstr :: "('a \<Rightarrow> bool) \<Rightarrow> 'a PathTrie \<Rightarrow> string \<Rightarrow> 'a list" where
  "PathTrie_findSubstr truthy root path = findSubstr_from truthy root (toSegments path)"

text \<open>Truthiness of a number, for the \<open>PathTrie<number>\<close> of the test suite.\<close>

definition truthy_number :: "int \<Rightarrow> bool" where
  "truthy_number n = (n \<noteq> 0)"

text \<open>The payload stored at the node a list of segments leads to, if any.\<close>

definition get_from :: "'a PathTrieNode \<Rightarrow> string list \<Rightarrow> 'a option" where
  "get_from cur segments =
     (case findNode_from cur segments of None \<Rightarrow> None | Some node \<Rightarrow> data node)"


section \<open>The search result model (searchResult, textSearchHeading)\<close>

subsection \<open>Data\<close>

text \<open>
  A URI is its string. An \<open>ITextQuery\<close> is used for its folder queries only, each
  reduced to its \<open>folder\<close>; an \<open>IFileMatch\<close> for its \<open>resource\<close>. The type parameter
  \<open>FileMatch extends IFileMatch\<close> of \<open>groupFilesByFolder\<close> is the record scheme.
\<close>

type_synonym URI = string

record ITextQuery =
  folderQueries :: "URI list"
  contentPattern :: string

record IFileMatch =
  resource :: URI
  results :: nat

record IFileInstanceMatch = IFileMatch +
  fileInstance :: nat

text \<open>
  Modelled from the spec: the constants \<open>PLAIN_TEXT_SEARCH__RESULT_ID\<close> and
  \<open>AI_TEXT_SEARCH_RESULT_ID\<close> of searchTreeCommon, which is not among the sources;
  the spec calls them the category id, plain or AI, and a heading is only ever
  constructed with one of the two.
\<close>

datatype heading_id = PLAIN_TEXT_SEARCH__RESULT_ID | AI_TEXT_SEARCH_RESULT_ID

text \<open>
  The folder matches that \<open>_createBaseFolderMatch\<close> creates, as their constructor
  arguments; the heading passed as \<open>this\<close> is given by its id. Two objects created
  with the same arguments are still two objects, so each carries the number of its
  creation by its heading, which together with the heading stands for its identity.
\<close>

datatype FolderMatchWorkspaceRootImpl =
  FolderMatchWorkspaceRootImpl (root_instance: nat) (root_resource: URI) (root_id: string)
    (root_index: nat) (root_query: ITextQuery) (root_parent: heading_id) (root_ai: bool)

datatype FolderMatchNoRootImpl =
  FolderMatchNoRootImpl (noRoot_instance: nat) (noRoot_id: string) (noRoot_index: nat)
    (noRoot_query: ITextQuery) (noRoot_parent: heading_id)

datatype IFolderMatch =
  WorkspaceRoot FolderMatchWorkspaceRootImpl
| NoRoot FolderMatchNoRootImpl

text \<open>
  Modelled from the spec: the property \<open>resource\<close> of the folder match classes of
  folderMatch, which is not among the sources: the root URI, or null for the
  other-files bucket.
\<close>

fun folder_resource :: "IFolderMatch \<Rightarrow> URI option" where
  "folder_resource (WorkspaceRoot fm) = Some (root_resource fm)"
| "folder_resource (NoRoot fm) = None"

text \<open>
  \<open>rawPerFolder.get(resource)!\<close> asserts that the bucket exists; where it does not,
  \<open>push\<close> on \<open>undefined\<close> throws.
\<close>

datatype error = TypeError

text \<open>
  The classes behind \<open>IFolderMatch\<close>, \<open>RangeHighlightDecorations\<close>,
  \<open>IReplaceService\<close>, \<open>PauseableEmitter\<close> and \<open>Disposable\<close> are not among the
  sources. What the model keeps of them are the calls the modelled code makes on
  them that change or read results: in order, with receiver and arguments, and an
  operation returns the calls it made. The subscriptions to their events
  (\<open>onChange\<close>, \<open>onDispose\<close>) are not recorded.

  Modelled from the spec: \<open>_register\<close> and \<open>dispose\<close> of the base class
  \<open>Disposable\<close> of lifecycle, which is not among the sources. The spec has a
  component dispose what it owns when it is disposed: \<open>_register\<close> keeps the object
  it is given, and \<open>super.dispose()\<close> calls \<open>dispose()\<close> on the objects kept, in the
  order they were registered, and keeps none of them. \<open>Disposable_dispose\<close> is that
  call, for the emitter and the listeners registered; the \<open>dispose()\<close> of each
  registered folder match is recorded after it.
\<close>

datatype call =
  FolderMatch_clear IFolderMatch "bool option"
| FolderMatch_dispose IFolderMatch
| FolderMatch_addFileMatch IFolderMatch "IFileMatch list" bool string bool
| FolderMatch_remove IFolderMatch "IFileInstanceMatch list"
| FolderMatch_set_replacingAll IFolderMatch bool
| FolderMatch_replace IFolderMatch IFileInstanceMatch
| FileMatch_updateHighlights IFileInstanceMatch
| FileMatch_updateNotebookHighlights IFileInstanceMatch
| ReplaceService_replace "IFileInstanceMatch list" nat
| RangeHighlightDecorations_highlightRange heading_id URI nat
| RangeHighlightDecorations_removeHighlightRange heading_id
| RangeHighlightDecorations_dispose heading_id
| Disposable_dispose heading_id
| PauseableEmitter_pause
| PauseableEmitter_resume

text \<open>
  \<open>TernarySearchTree.forUris\<close> is not among the sources either. A tree is the list
  of the entries \<open>set\<close> on it since it was created, and its \<open>findSubstr\<close> is a
  parameter of every operation that looks a URI up.
\<close>

type_synonym 'v TernarySearchTree = "(URI \<times> 'v) list"

type_synonym findSubstr =
  "FolderMatchWorkspaceRootImpl TernarySearchTree \<Rightarrow> URI \<Rightarrow> FolderMatchWorkspaceRootImpl option"


subsection \<open>TextSearchHeadingImpl\<close>

text \<open>
  The fields of the class, without the leading underscore. \<open>disposePastResults\<close> is
  a closure: \<open>None\<close> is the initial \<open>() => Promise.resolve()\<close>, and \<open>Some old\<close> the
  one the query setter installs, which has captured \<open>oldFolderMatches\<close>.
  \<open>h_created\<close> counts the folder matches the heading has created, and
  \<open>h_registered\<close> holds the folder matches it has passed to \<open>_register\<close> and
  not disposed by \<open>super.dispose()\<close> yet. The listener
  of the constructor, which recomputes \<open>_isDirty\<close> on a change event with removals,
  runs on events fired inside the folder matches; \<open>h_isDirty\<close> follows the
  assignments the heading makes itself.
\<close>

record TextSearchHeadingImpl =
  h_allowOtherResults :: bool
  h_id :: heading_id
  h_isDirty :: bool
  h_showHighlights :: bool
  h_query :: "ITextQuery option"
  h_disposePastResults :: "IFolderMatch list option"
  h_folderMatches :: "FolderMatchWorkspaceRootImpl list"
  h_otherFilesMatch :: "FolderMatchNoRootImpl option"
  h_folderMatchesMap :: "FolderMatchWorkspaceRootImpl TernarySearchTree"
  h_hidden :: bool
  h_cachedSearchComplete :: "nat option"
  h_created :: nat
  h_registered :: "IFolderMatch list"

definition new_TextSearchHeadingImpl :: "bool \<Rightarrow> heading_id \<Rightarrow> TextSearchHeadingImpl" where
  "new_TextSearchHeadingImpl allowOtherResults ident =
     \<lparr> h_allowOtherResults = allowOtherResults, h_id = ident, h_isDirty = False,
       h_showHighlights = False,
       h_query = None, h_disposePastResults = None, h_folderMatches = [],
       h_otherFilesMatch = None, h_folderMatchesMap = [], h_hidden = False,
       h_cachedSearchComplete = None, h_created = 0, h_registered = [] \<rparr>"

definition isAIContributed :: "TextSearchHeadingImpl \<Rightarrow> bool" where
  "isAIContributed h = (h_id h = AI_TEXT_SEARCH_RESULT_ID)"

text \<open>The getter \<open>query\<close>.\<close>

definition get_query :: "TextSearchHeadingImpl \<Rightarrow> ITextQuery option" where
  "get_query h = h_query h"

definition folderMatches :: "TextSearchHeadingImpl \<Rightarrow> IFolderMatch list" where
  "folderMatches h =
     (case h_otherFilesMatch h of
        Some otherFilesMatch \<Rightarrow>
          if h_allowOtherResults h
          then map WorkspaceRoot (h_folderMatches h) @ [NoRoot otherFilesMatch]
          else map WorkspaceRoot (h_folderMatches h)
      | None \<Rightarrow> map WorkspaceRoot (h_folderMatches h))"

definition getFolderMatch ::
  "findSubstr \<Rightarrow> TextSearchHeadingImpl \<Rightarrow> URI \<Rightarrow> IFolderMatch option" where
  "getFolderMatch findSubstr h res =
     (case findSubstr (h_folderMatchesMap h) res of
        Some folderMatch \<Rightarrow> Some (WorkspaceRoot folderMatch)
      | None \<Rightarrow>
          (case h_otherFilesMatch h of
             Some otherFilesMatch \<Rightarrow>
               if h_allowOtherResults h then Some (NoRoot otherFilesMatch) else None
           | None \<Rightarrow> None))"

text \<open>
  The \<open>forEach\<close> of \<open>groupFilesByFolder\<close> over the file matches. \<open>rawPerFolder\<close> is
  a \<open>ResourceMap\<close>, a map in insertion order keyed by URI: an association list.
\<close>

fun groupFiles_loop ::
  "(URI \<Rightarrow> IFolderMatch option) \<Rightarrow> 'f IFileMatch_scheme list \<Rightarrow>
   (URI \<times> 'f IFileMatch_scheme list) list \<Rightarrow> 'f IFileMatch_scheme list \<Rightarrow>
   error + (URI \<times> 'f IFileMatch_scheme list) list \<times> 'f IFileMatch_scheme list" where
  "groupFiles_loop getFM [] rawPerFolder otherFileMatches = Inr (rawPerFolder, otherFileMatches)"
| "groupFiles_loop getFM (rawFileMatch # rest) rawPerFolder otherFileMatches =
     (case getFM (resource rawFileMatch) of
        None \<Rightarrow> groupFiles_loop getFM rest rawPerFolder otherFileMatches
      | Some folderMatch \<Rightarrow>
          (case folder_resource folderMatch of
             Some res \<Rightarrow>
               (case map_of rawPerFolder res of
                  None \<Rightarrow> Inl TypeError
                | Some bucket \<Rightarrow>
                    groupFiles_loop getFM rest
                      (AList.update res (bucket @ [rawFileMatch]) rawPerFolder) otherFileMatches)
           | None \<Rightarrow>
               groupFiles_loop getFM rest rawPerFolder (otherFileMatches @ [rawFileMatch])))"

definition groupFilesByFolder ::
  "findSubstr \<Rightarrow> TextSearchHeadingImpl \<Rightarrow> 'f IFileMatch_scheme list \<Rightarrow>
   error + (URI \<times> 'f IFileMatch_scheme list) list \<times> 'f IFileMatch_scheme list" where
  "groupFilesByFolder findSubstr h fileMatches =
     groupFiles_loop (getFolderMatch findSubstr h) fileMatches
       (fold (\<lambda>fm rawPerFolder. AList.update (root_resource fm) [] rawPerFolder)
          (h_folderMatches h) [])
       []"

text \<open>
  A call of the closure \<open>disposePastResults\<close>. It is an async function without an
  \<open>await\<close> in its body, so the body has run when the call returns.
\<close>

definition run_disposePastResults ::
  "TextSearchHeadingImpl \<Rightarrow> TextSearchHeadingImpl \<times> call list" where
  "run_disposePastResults h =
     (case h_disposePastResults h of
        None \<Rightarrow> (h, [])
      | Some oldFolderMatches \<Rightarrow>
          (h\<lparr> h_isDirty := False \<rparr>,
           map (\<lambda>match. FolderMatch_clear match None) oldFolderMatches
           @ map FolderMatch_dispose oldFolderMatches))"

definition add ::
  "findSubstr \<Rightarrow> IFileMatch list \<Rightarrow> string \<Rightarrow> bool \<Rightarrow> bool \<Rightarrow> TextSearchHeadingImpl \<Rightarrow>
   error + TextSearchHeadingImpl \<times> call list" where
  "add findSubstr allRaw searchInstanceID ai silent h =
     (case groupFilesByFolder findSubstr h allRaw of
        Inl e \<Rightarrow> Inl e
      | Inr (byFolder, other) \<Rightarrow>
          Inr (fst (run_disposePastResults h),
            concat (map (\<lambda>(key, raw).
                case raw of
                  [] \<Rightarrow> []
                | first # _ \<Rightarrow>
                    (case getFolderMatch findSubstr h (resource first) of
                       None \<Rightarrow> []
                     | Some folderMatch \<Rightarrow>
                         [FolderMatch_addFileMatch folderMatch raw silent searchInstanceID
                            (isAIContributed h)]))
              byFolder)
            @ (if \<not> ai
               then (case h_otherFilesMatch h of
                       None \<Rightarrow> []
                     | Some otherFilesMatch \<Rightarrow>
                         [FolderMatch_addFileMatch (NoRoot otherFilesMatch) other silent
                            searchInstanceID False])
               else [])
            @ snd (run_disposePastResults h)))"

text \<open>
  The argument of \<open>remove\<close> is one element or an array of elements, each a file
  match or a folder match. \<open>remove\<close> assigns no field of the heading, so its result
  is the calls it made and the error, if one was thrown; the clears of the folder
  matches come before \<open>groupFilesByFolder\<close> and are made even when that throws.
  The parameter \<open>ai\<close> is not used by the body.
\<close>

datatype removable = FileInstanceMatch IFileInstanceMatch | FolderMatch IFolderMatch

datatype 'a one_or_many = One 'a | Many "'a list"

definition remove ::
  "findSubstr \<Rightarrow> removable one_or_many \<Rightarrow> bool \<Rightarrow> TextSearchHeadingImpl \<Rightarrow>
   call list \<times> error option" where
  "remove findSubstr matches ai h =
     (let matches = (case matches of One m \<Rightarrow> [m] | Many ms \<Rightarrow> ms);
          cleared = concat (map (\<lambda>m. case m of FolderMatch fm \<Rightarrow> [FolderMatch_clear fm None]
                                          | FileInstanceMatch _ \<Rightarrow> []) matches);
          fileMatches = concat (map (\<lambda>m. case m of FileInstanceMatch f \<Rightarrow> [f]
                                              | FolderMatch _ \<Rightarrow> []) matches)
      in case groupFilesByFolder findSubstr h fileMatches of
           Inl e \<Rightarrow> (cleared, Some e)
         | Inr (byFolder, other) \<Rightarrow>
             (cleared
              @ concat (map (\<lambda>(key, matches).
                  case matches of
                    [] \<Rightarrow> []
                  | first # _ \<Rightarrow>
                      (case getFolderMatch findSubstr h (resource first) of
                         None \<Rightarrow> []
                       | Some folderMatch \<Rightarrow> [FolderMatch_remove folderMatch matches]))
                byFolder)
              @ (case other of
                   [] \<Rightarrow> []
                 | first # _ \<Rightarrow>
                     (case getFolderMatch findSubstr h (resource first) of
                        None \<Rightarrow> []
                      | Some folderMatch \<Rightarrow> [FolderMatch_remove folderMatch other])),
              None))"

text \<open>
  The query setter. The folder matches of the new query are created by
  \<open>_createBaseFolderMatch(resource, resource.toString(), index, query,
  this.isAIContributed)\<close>, one for each folder query, and the bucket of the other
  files by \<open>_createBaseFolderMatch(null, 'otherFiles', this._folderMatches.length + 1,
  query, this.isAIContributed)\<close>, which for a null resource makes a
  \<open>FolderMatchNoRootImpl\<close>. \<open>_createBaseFolderMatch\<close> passes each folder match
  it creates to \<open>_register\<close>.
\<close>

definition createWorkspaceRoots ::
  "TextSearchHeadingImpl \<Rightarrow> ITextQuery \<Rightarrow> FolderMatchWorkspaceRootImpl list" where
  "createWorkspaceRoots h query =
     map (\<lambda>(index, res).
            FolderMatchWorkspaceRootImpl (h_created h + index) res res index query (h_id h)
              (isAIContributed h))
         (enumerate 0 (folderQueries query))"

definition set_query ::
  "ITextQuery option \<Rightarrow> TextSearchHeadingImpl \<Rightarrow> TextSearchHeadingImpl \<times> call list" where
  "set_query query h =
     (let oldFolderMatches = folderMatches h;
          h1 = h\<lparr> h_disposePastResults := Some oldFolderMatches,
                  h_cachedSearchComplete := None,
                  h_folderMatchesMap := [] \<rparr>;
          calls = [RangeHighlightDecorations_removeHighlightRange (h_id h)]
      in case query of
           None \<Rightarrow> (h1, calls)
         | Some q \<Rightarrow>
             (let roots = createWorkspaceRoots h1 q;
                  h2 = h1\<lparr> h_folderMatches := roots,
                           h_created := h_created h1 + length roots,
                           h_registered := h_registered h1 @ map WorkspaceRoot roots,
                           h_folderMatchesMap := map (\<lambda>fm. (root_resource fm, fm)) roots \<rparr>;
                  h3 = (if h_allowOtherResults h2
                        then h2\<lparr> h_otherFilesMatch :=
                                   Some (FolderMatchNoRootImpl (h_created h2) ''otherFiles''
                                           (length roots + 1) q (h_id h2)),
                                 h_created := h_created h2 + 1,
                                 h_registered :=
                                   h_registered h2
                                   @ [NoRoot (FolderMatchNoRootImpl (h_created h2) ''otherFiles''
                                                (length roots + 1) q (h_id h2))] \<rparr>
                        else h2)
              in (h3\<lparr> h_query := Some q \<rparr>, calls)))"

definition disposeMatches :: "TextSearchHeadingImpl \<Rightarrow> TextSearchHeadingImpl \<times> call list" where
  "disposeMatches h =
     (h\<lparr> h_folderMatches := [], h_folderMatchesMap := [] \<rparr>,
      map FolderMatch_dispose (folderMatches h)
      @ [RangeHighlightDecorations_removeHighlightRange (h_id h)])"

definition clear :: "TextSearchHeadingImpl \<Rightarrow> TextSearchHeadingImpl \<times> call list" where
  "clear h =
     (fst (disposeMatches h)\<lparr> h_folderMatches := [], h_otherFilesMatch := None,
                              h_cachedSearchComplete := None \<rparr>,
      map (\<lambda>folderMatch. FolderMatch_clear folderMatch (Some True)) (folderMatches h)
      @ snd (disposeMatches h))"

definition hide :: "TextSearchHeadingImpl \<Rightarrow> TextSearchHeadingImpl \<times> call list" where
  "hide h = clear (h\<lparr> h_hidden := True \<rparr>)"

text \<open>
  \<open>dispose()\<close>: the decorations, \<open>disposeMatches()\<close>, \<open>super.dispose()\<close> and then
  the awaited closure \<open>disposePastResults\<close>.
\<close>

definition super_dispose :: "TextSearchHeadingImpl \<Rightarrow> TextSearchHeadingImpl \<times> call list" where
  "super_dispose h =
     (h\<lparr> h_registered := [] \<rparr>,
      [Disposable_dispose (h_id h)] @ map FolderMatch_dispose (h_registered h))"

definition dispose :: "TextSearchHeadingImpl \<Rightarrow> TextSearchHeadingImpl \<times> call list" where
  "dispose h =
     (fst (run_disposePastResults (fst (super_dispose (fst (disposeMatches h))))),
      [RangeHighlightDecorations_dispose (h_id h)]
      @ snd (disposeMatches h)
      @ snd (super_dispose (fst (disposeMatches h)))
      @ snd (run_disposePastResults (fst (super_dispose (fst (disposeMatches h))))))"

text \<open>
  \<open>matches()\<close> concatenates \<open>allDownstreamFileMatches()\<close> of the folder matches; what
  each folder match returns is a parameter.
\<close>

definition heading_matches ::
  "(IFolderMatch \<Rightarrow> IFileInstanceMatch list) \<Rightarrow> TextSearchHeadingImpl \<Rightarrow>
   IFileInstanceMatch list" where
  "heading_matches allDownstreamFileMatches h = concat (map allDownstreamFileMatches (folderMatches h))"

text \<open>
  \<open>toggleHighlights(value)\<close>. What the file matches answer is a parameter:
  \<open>isNotebookFileMatch\<close>, and \<open>getSelectedMatch()\<close>, a match given by the resource of
  its parent and its range, or null. The loop asks the file matches in order
  for their selected match until one has one.
\<close>

definition toggleHighlights ::
  "(IFolderMatch \<Rightarrow> IFileInstanceMatch list) \<Rightarrow> (IFileInstanceMatch \<Rightarrow> bool) \<Rightarrow>
   (IFileInstanceMatch \<Rightarrow> (URI \<times> nat) option) \<Rightarrow> bool \<Rightarrow> TextSearchHeadingImpl \<Rightarrow>
   TextSearchHeadingImpl \<times> call list" where
  "toggleHighlights allDownstreamFileMatches isNotebookFileMatch getSelectedMatch val h =
     (if h_showHighlights h = val then (h, [])
      else
        (let fileMatches = heading_matches allDownstreamFileMatches h;
             updates = concat (map (\<lambda>fileMatch.
                 FileMatch_updateHighlights fileMatch
                 # (if isNotebookFileMatch fileMatch
                    then [FileMatch_updateNotebookHighlights fileMatch] else []))
               fileMatches);
             selectedMatch =
               (case concat (map (\<lambda>fileMatch. case getSelectedMatch fileMatch of
                                                   None \<Rightarrow> [] | Some m \<Rightarrow> [m]) fileMatches) of
                  [] \<Rightarrow> None
                | m # _ \<Rightarrow> Some m)
         in (h\<lparr> h_showHighlights := val \<rparr>,
             updates
             @ (case selectedMatch of
                  Some (res, matchRange) \<Rightarrow>
                    if val then [RangeHighlightDecorations_highlightRange (h_id h) res matchRange]
                    else [RangeHighlightDecorations_removeHighlightRange (h_id h)]
                | None \<Rightarrow> [RangeHighlightDecorations_removeHighlightRange (h_id h)]))))"


subsection \<open>PlainTextSearchHeadingImpl\<close>

text \<open>\<open>replace(match)\<close>: the folder match of the file replaces it, if there is one.\<close>

definition replace :: "findSubstr \<Rightarrow> IFileInstanceMatch \<Rightarrow> TextSearchHeadingImpl \<Rightarrow> call list" where
  "replace findSubstr match h =
     (case getFolderMatch findSubstr h (resource match) of
        None \<Rightarrow> []
      | Some folderMatch \<Rightarrow> [FolderMatch_replace folderMatch match])"

text \<open>The private setter \<open>replacingAll\<close>.\<close>

definition set_replacingAll :: "bool \<Rightarrow> TextSearchHeadingImpl \<Rightarrow> call list" where
  "set_replacingAll running h =
     map (\<lambda>folderMatch. FolderMatch_set_replacingAll folderMatch running) (folderMatches h)"

text \<open>
  \<open>replaceAll(progress)\<close> in its three pieces: the synchronous part up to the call of
  the replace service, the callback for the fulfilled promise and the callback for
  the rejected one. \<open>replaceAll\<close> runs the first and then the callback that the
  outcome of the promise selects, with nothing in between.
\<close>

definition replaceAll_call ::
  "(IFolderMatch \<Rightarrow> IFileInstanceMatch list) \<Rightarrow> nat \<Rightarrow> TextSearchHeadingImpl \<Rightarrow> call list" where
  "replaceAll_call allDownstreamFileMatches progress h =
     set_replacingAll True h
     @ [ReplaceService_replace (heading_matches allDownstreamFileMatches h) progress]"

definition replaceAll_fulfilled ::
  "TextSearchHeadingImpl \<Rightarrow> TextSearchHeadingImpl \<times> call list" where
  "replaceAll_fulfilled h = (fst (clear h), set_replacingAll False h @ snd (clear h))"

definition replaceAll_rejected ::
  "TextSearchHeadingImpl \<Rightarrow> TextSearchHeadingImpl \<times> call list" where
  "replaceAll_rejected h = (h, set_replacingAll False h)"

definition replaceAll ::
  "(IFolderMatch \<Rightarrow> IFileInstanceMatch list) \<Rightarrow> bool \<Rightarrow> nat \<Rightarrow> TextSearchHeadingImpl \<Rightarrow>
   TextSearchHeadingImpl \<times> call list" where
  "replaceAll allDownstreamFileMatches fulfilled progress h =
     (let settled = (if fulfilled then replaceAll_fulfilled h else replaceAll_rejected h)
      in (fst settled, replaceAll_call allDownstreamFileMatches progress h @ snd settled))"


subsection \<open>Sequences of operations on a heading\<close>

text \<open>
  The operations of a heading that assign a field or call a collaborator, each with
  its arguments and with what the collaborators answer when it runs. An operation
  that throws has assigned nothing.
\<close>

datatype heading_op =
  OpAdd "IFileMatch list" string bool bool
| OpRemove "removable one_or_many" bool
| OpSetQuery "ITextQuery option"
| OpClear
| OpHide
| OpDispose
| OpReplace IFileInstanceMatch
| OpReplaceAll "IFolderMatch \<Rightarrow> IFileInstanceMatch list" bool nat
| OpToggleHighlights "IFolderMatch \<Rightarrow> IFileInstanceMatch list" "IFileInstanceMatch \<Rightarrow> bool"
    "IFileInstanceMatch \<Rightarrow> (URI \<times> nat) option" bool

fun run_op :: "findSubstr \<Rightarrow> heading_op \<Rightarrow> TextSearchHeadingImpl \<Rightarrow> TextSearchHeadingImpl" where
  "run_op findSubstr (OpAdd allRaw searchInstanceID ai silent) h =
     (case add findSubstr allRaw searchInstanceID ai silent h of
        Inl e \<Rightarrow> h
      | Inr (h', calls) \<Rightarrow> h')"
| "run_op findSubstr (OpRemove ms ai) h = h"
| "run_op findSubstr (OpSetQuery query) h = fst (set_query query h)"
| "run_op findSubstr OpClear h = fst (clear h)"
| "run_op findSubstr OpHide h = fst (hide h)"
| "run_op findSubstr OpDispose h = fst (dispose h)"
| "run_op findSubstr (OpReplace match) h = h"
| "run_op findSubstr (OpReplaceAll allDownstreamFileMatches fulfilled progress) h =
     fst (replaceAll allDownstreamFileMatches fulfilled progress h)"
| "run_op findSubstr (OpToggleHighlights allDownstreamFileMatches isNotebookFileMatch
      getSelectedMatch val) h =
     fst (toggleHighlights allDownstreamFileMatches isNotebookFileMatch getSelectedMatch val h)"

fun run_ops ::
  "findSubstr \<Rightarrow> heading_op list \<Rightarrow> TextSearchHeadingImpl \<Rightarrow> TextSearchHeadingImpl" where
  "run_ops findSubstr [] h = h"
| "run_ops findSubstr (op # ops) h = run_ops findSubstr ops (run_op findSubstr op h)"

text \<open>Whether an operation is a call of the query setter.\<close>

fun is_set_query :: "heading_op \<Rightarrow> bool" where
  "is_set_query (OpSetQuery query) = True"
| "is_set_query op = False"

text \<open>
  The operations that set a query that is not null, or clear or dispose the heading:
  \<open>hide\<close> clears, and so does \<open>replaceAll\<close> when the promise is fulfilled.
\<close>

fun sets_clears_or_disposes :: "heading_op \<Rightarrow> bool" where
  "sets_clears_or_disposes (OpSetQuery query) = (query \<noteq> None)"
| "sets_clears_or_disposes OpClear = True"
| "sets_clears_or_disposes OpHide = True"
| "sets_clears_or_disposes OpDispose = True"
| "sets_clears_or_disposes (OpReplaceAll allDownstreamFileMatches fulfilled progress) = fulfilled"
| "sets_clears_or_disposes op = False"


subsection \<open>SearchResultImpl\<close>

record SearchResultImpl =
  plainTextSearchResult :: TextSearchHeadingImpl
  aiTextSearchResult :: TextSearchHeadingImpl

text \<open>The two headings as the constructor creates them, both with \<open>true\<close>.\<close>

definition new_SearchResultImpl :: SearchResultImpl where
  "new_SearchResultImpl =
     \<lparr> plainTextSearchResult = new_TextSearchHeadingImpl True PLAIN_TEXT_SEARCH__RESULT_ID,
       aiTextSearchResult = new_TextSearchHeadingImpl True AI_TEXT_SEARCH_RESULT_ID \<rparr>"

text \<open>
  \<open>remove(matches, ai)\<close> of the search result. When the call on the AI heading
  throws, the call on the plain heading is not reached.
\<close>

definition SearchResult_remove ::
  "findSubstr \<Rightarrow> removable one_or_many \<Rightarrow> bool \<Rightarrow> SearchResultImpl \<Rightarrow>
   call list \<times> error option" where
  "SearchResult_remove findSubstr matches ai sr =
     (let first = (if ai then remove findSubstr matches ai (aiTextSearchResult sr)
                   else ([], None))
      in case snd first of
           Some e \<Rightarrow> (fst first, Some e)
         | None \<Rightarrow>
             (fst first @ fst (remove findSubstr matches ai (plainTextSearchResult sr)),
              snd (remove findSubstr matches ai (plainTextSearchResult sr))))"

text \<open>
  Modelled from the spec: \<open>RenderableMatch\<close>, its \<open>parent()\<close> and the type guards
  \<open>isTextSearchHeading\<close>, \<open>isFolderMatch\<close> and \<open>isFolderMatchWithResource\<close> of
  searchTreeCommon, which is not among the sources. The spec has a tree of headings,
  folder matches (with a root URI, or without one for the other-files bucket), file
  matches and matches; an element carries a number for its identity and its parent,
  and the parent of a heading is the search result.
\<close>

datatype RenderableMatch =
  ATextSearchHeading heading_id
| AFolderMatch nat "URI option" RenderableMatch
| AFileInstanceMatch nat RenderableMatch
| ASearchMatch nat RenderableMatch

fun parent :: "RenderableMatch \<Rightarrow> RenderableMatch option" where
  "parent (ATextSearchHeading i) = None"
| "parent (AFolderMatch n res p) = Some p"
| "parent (AFileInstanceMatch n p) = Some p"
| "parent (ASearchMatch n p) = Some p"

fun isTextSearchHeading :: "RenderableMatch \<Rightarrow> bool" where
  "isTextSearchHeading (ATextSearchHeading i) = True"
| "isTextSearchHeading e = False"

fun isFolderMatch :: "RenderableMatch \<Rightarrow> bool" where
  "isFolderMatch (AFolderMatch n res p) = True"
| "isFolderMatch e = False"

fun isFolderMatchWithResource :: "RenderableMatch \<Rightarrow> bool" where
  "isFolderMatchWithResource (AFolderMatch n res p) = (res \<noteq> None)"
| "isFolderMatchWithResource e = False"

text \<open>
  Modelled from the spec: \<open>arrayContainsElementOrParent\<close> of searchTreeCommon, which
  is not among the sources: whether the array holds the element or one of its
  ancestors (the spec's rule for an element whose ancestor is also present).
\<close>

fun arrayContainsElementOrParent :: "RenderableMatch \<Rightarrow> RenderableMatch list \<Rightarrow> bool" where
  "arrayContainsElementOrParent (ATextSearchHeading i) testArray =
     (ATextSearchHeading i \<in> set testArray)"
| "arrayContainsElementOrParent (AFolderMatch n res p) testArray =
     (AFolderMatch n res p \<in> set testArray \<or> arrayContainsElementOrParent p testArray)"
| "arrayContainsElementOrParent (AFileInstanceMatch n p) testArray =
     (AFileInstanceMatch n p \<in> set testArray \<or> arrayContainsElementOrParent p testArray)"
| "arrayContainsElementOrParent (ASearchMatch n p) testArray =
     (ASearchMatch n p \<in> set testArray \<or> arrayContainsElementOrParent p testArray)"

text \<open>The heading of the search result with a given id, and \<open>hide()\<close> called on it.\<close>

definition textSearchResult :: "heading_id \<Rightarrow> SearchResultImpl \<Rightarrow> TextSearchHeadingImpl" where
  "textSearchResult i sr =
     (case i of
        PLAIN_TEXT_SEARCH__RESULT_ID \<Rightarrow> plainTextSearchResult sr
      | AI_TEXT_SEARCH_RESULT_ID \<Rightarrow> aiTextSearchResult sr)"

definition hide_heading :: "heading_id \<Rightarrow> SearchResultImpl \<Rightarrow> SearchResultImpl \<times> call list" where
  "hide_heading i sr =
     (case i of
        PLAIN_TEXT_SEARCH__RESULT_ID \<Rightarrow>
          (sr\<lparr> plainTextSearchResult := fst (hide (plainTextSearchResult sr)) \<rparr>,
           snd (hide (plainTextSearchResult sr)))
      | AI_TEXT_SEARCH_RESULT_ID \<Rightarrow>
          (sr\<lparr> aiTextSearchResult := fst (hide (aiTextSearchResult sr)) \<rparr>,
           snd (hide (aiTextSearchResult sr))))"

text \<open>
  The \<open>forEach\<close> of \<open>batchRemove\<close>, with the local array \<open>removedElems\<close>. In the
  branch that pushes onto \<open>removedElems\<close> the source has the call
  \<open>currentElement.parent().remove(currentElement)\<close> in a comment, so the push is all
  that branch does. The loop returns \<open>removedElems\<close> with the search result and
  the calls; \<open>batchRemove\<close> drops it, as the source does.
\<close>

fun batchRemove_loop ::
  "RenderableMatch list \<Rightarrow> RenderableMatch list \<Rightarrow> SearchResultImpl \<Rightarrow> call list \<Rightarrow>
   SearchResultImpl \<times> call list \<times> RenderableMatch list" where
  "batchRemove_loop [] removedElems sr calls = (sr, calls, removedElems)"
| "batchRemove_loop (currentElement # rest) removedElems sr calls =
     (if \<not> arrayContainsElementOrParent currentElement removedElems
      then (case currentElement of
              ATextSearchHeading i \<Rightarrow>
                batchRemove_loop rest removedElems (fst (hide_heading i sr))
                  (calls @ snd (hide_heading i sr))
            | _ \<Rightarrow>
                if \<not> isFolderMatch currentElement \<or> isFolderMatchWithResource currentElement
                then batchRemove_loop rest (removedElems @ [currentElement]) sr calls
                else batchRemove_loop rest removedElems sr calls)
      else batchRemove_loop rest removedElems sr calls)"

definition batchRemove ::
  "RenderableMatch list \<Rightarrow> SearchResultImpl \<Rightarrow> SearchResultImpl \<times> call list" where
  "batchRemove elementsToRemove sr =
     (case batchRemove_loop elementsToRemove [] sr [] of
        (sr', calls, removedElems) \<Rightarrow>
          (sr', [PauseableEmitter_pause] @ calls @ [PauseableEmitter_resume]))"


subsection \<open>Well-formed headings\<close>

text \<open>
  A \<open>findSubstr\<close> returns a value that was set on the tree. Every lookup of a
  heading then returns one of its current folder matches, because the map is either
  empty or was filled from \<open>_folderMatches\<close>; that is what the non-null assertion
  in \<open>groupFilesByFolder\<close> relies on.
\<close>

definition sound_findSubstr :: "findSubstr \<Rightarrow> bool" where
  "sound_findSubstr findSubstr =
     (\<forall>entries uri v. findSubstr entries uri = Some v \<longrightarrow> v \<in> snd ` set entries)"

definition lookup_in_roots :: "findSubstr \<Rightarrow> TextSearchHeadingImpl \<Rightarrow> bool" where
  "lookup_in_roots findSubstr h =
     (\<forall>uri fm. findSubstr (h_folderMatchesMap h) uri = Some fm
        \<longrightarrow> fm \<in> set (h_folderMatches h))"

text \<open>The folder matches a heading holds were created by it, before now.\<close>

definition instances_fresh :: "TextSearchHeadingImpl \<Rightarrow> bool" where
  "instances_fresh h =
     ((\<forall>fm\<in>set (h_folderMatches h). root_instance fm < h_created h) \<and>
      (case h_otherFilesMatch h of
         None \<Rightarrow> True
       | Some fm \<Rightarrow> noRoot_instance fm < h_created h))"

text \<open>The creation number of a folder match.\<close>

fun folder_instance :: "IFolderMatch \<Rightarrow> nat" where
  "folder_instance (WorkspaceRoot fm) = root_instance fm"
| "folder_instance (NoRoot fm) = noRoot_instance fm"

text \<open>Where \<open>groupFilesByFolder\<close> puts a file match, by the folder match its URI resolves to.\<close>

definition in_bucket ::
  "(URI \<Rightarrow> IFolderMatch option) \<Rightarrow> URI \<Rightarrow> 'f IFileMatch_scheme \<Rightarrow> bool" where
  "in_bucket getFM res m =
     (case getFM (resource m) of None \<Rightarrow> False | Some fm \<Rightarrow> folder_resource fm = Some res)"

definition in_other :: "(URI \<Rightarrow> IFolderMatch option) \<Rightarrow> 'f IFileMatch_scheme \<Rightarrow> bool" where
  "in_other getFM m =
     (case getFM (resource m) of None \<Rightarrow> False | Some fm \<Rightarrow> folder_resource fm = None)"

text \<open>The elements of the argument of \<open>remove\<close>.\<close>

fun elements :: "'a one_or_many \<Rightarrow> 'a list" where
  "elements (One m) = [m]"
| "elements (Many ms) = ms"


subsection \<open>A lookup and a search result to compute with\<close>

text \<open>
  A \<open>findSubstr\<close> for the examples: the value of the latest entry whose key is a
  prefix of the URI.
\<close>

fun sample_findSubstr :: "'v TernarySearchTree \<Rightarrow> URI \<Rightarrow> 'v option" where
  "sample_findSubstr [] uri = None"
| "sample_findSubstr ((key, v) # entries) uri =
     (case sample_findSubstr entries uri of
        Some later \<Rightarrow> Some later
      | None \<Rightarrow> if prefix key uri then Some v else None)"

definition sample_query :: ITextQuery where
  "sample_query = \<lparr> folderQueries = [''/w''], contentPattern = ''foo'' \<rparr>"

text \<open>A heading after its first query, and after a second one.\<close>

definition sample_heading :: "heading_id \<Rightarrow> TextSearchHeadingImpl" where
  "sample_heading i = fst (set_query (Some sample_query) (new_TextSearchHeadingImpl True i))"

definition sample_heading2 :: "heading_id \<Rightarrow> TextSearchHeadingImpl" where
  "sample_heading2 i = fst (set_query (Some sample_query) (sample_heading i))"

text \<open>A heading that does not allow other results, after its first query.\<close>

definition sample_rooted_heading :: TextSearchHeadingImpl where
  "sample_rooted_heading =
     fst (set_query (Some sample_query)
            (new_TextSearchHeadingImpl False PLAIN_TEXT_SEARCH__RESULT_ID))"

definition sample_result :: SearchResultImpl where
  "sample_result =
     \<lparr> plainTextSearchResult = sample_heading PLAIN_TEXT_SEARCH__RESULT_ID,
       aiTextSearchResult = sample_heading AI_TEXT_SEARCH_RESULT_ID \<rparr>"


section \<open>PathTrie: properties\<close>

lemma PathTrie_get_segments: "PathTrie_get root path = get_from root (toSegments path)"
  by (simp add: PathTrie_get_def findNode_def get_from_def)

lemma get_from_Nil [simp]: "get_from cur [] = data cur"
  by (simp add: get_from_def)

lemma get_from_Cons:
  "get_from cur (s # ss) =
     (case map_of (nexts cur) s of None \<Rightarrow> None | Some child \<Rightarrow> get_from child ss)"
  by (simp add: get_from_def split: option.splits)

lemma get_from_fresh [simp]: "get_from (PathTrieNode None []) ss = None"
  by (cases ss) (simp_all add: get_from_Cons)

lemma get_set_same: "get_from (set_from t ss d) ss = Some d"
  by (induction ss arbitrary: t)
     (simp_all add: get_from_Cons update_conv' split: option.splits)

text \<open>A \<open>set\<close> along other segments leaves the payload of a path as it was.\<close>

lemma get_set_other: "ss \<noteq> ss' \<Longrightarrow> get_from (set_from t ss' d) ss = get_from t ss"
proof (induction ss' arbitrary: t ss)
  case Nil
  then show ?case by (cases ss) (simp_all add: get_from_Cons)
next
  case (Cons s' ss')
  show ?case
  proof (cases ss)
    case Nil
    then show ?thesis by (simp split: option.splits)
  next
    case (Cons s rest)
    show ?thesis
    proof (cases "s = s'")
      case True
      with Cons Cons.prems have ne: "rest \<noteq> ss'" by simp
      show ?thesis using True Cons Cons.IH [OF ne]
        by (simp add: get_from_Cons update_conv' split: option.splits)
    next
      case False
      then show ?thesis using Cons
        by (simp add: get_from_Cons update_conv' split: option.splits)
    qed
  qed
qed

lemma findNode_delete: "ss \<noteq> [] \<Longrightarrow> findNode_from (delete_from t ss) ss = None"
  by (induction t ss rule: delete_from.induct)
     (simp_all add: update_conv' delete_conv' split: option.splits)

lemma get_delete: "ss \<noteq> [] \<Longrightarrow> get_from (delete_from t ss) ss = None"
  by (simp add: get_from_def findNode_delete)

lemma prefixes_hd: "prefixes xs = [] # tl (prefixes xs)"
  by (cases xs) simp_all

lemma findSubstr_from_prefixes:
  "findSubstr_from truthy t ss =
     concat (map (\<lambda>p. case get_from t p of
                         None \<Rightarrow> []
                       | Some d \<Rightarrow> if truthy d then [d] else [])
                 (tl (prefixes ss)))"
proof (induction ss arbitrary: t)
  case Nil
  then show ?case by simp
next
  case (Cons s ss)
  have tl_eq: "tl (prefixes (s # ss)) = [s] # map ((#) s) (tl (prefixes ss))"
    using prefixes_hd [of ss] by (metis list.sel(3) list.simps(9) prefixes.simps(2))
  show ?case
  proof (cases "map_of (nexts t) s")
    case None
    then show ?thesis unfolding tl_eq by (simp add: get_from_Cons comp_def)
  next
    case (Some child)
    then show ?thesis unfolding tl_eq using Cons.IH [of child]
      by (simp add: get_from_Cons comp_def)
  qed
qed

lemma findSubstr_from_stop:
  "findNode_from t p = None \<Longrightarrow>
   findSubstr_from truthy t (p @ rest) = findSubstr_from truthy t p"
proof (induction p arbitrary: t)
  case Nil
  then show ?case by simp
next
  case (Cons s p)
  then show ?case by (cases "map_of (nexts t) s") simp_all
qed

lemma toSegments_Users_name [simp]: "toSegments ''/Users/name'' = [''Users'', ''name'']"
  by (simp add: toSegments_def)


subsection \<open>C6: set, delete, get\<close>

text \<open>
  C6, as stated, fails at the empty path. Its segment list is empty, \<open>set\<close> stores the
  payload in the root, \<open>delete\<close> finds no \<open>prev\<close> at the root and removes nothing,
  and \<open>get\<close> still returns the payload.
\<close>

theorem PathTrie_set_delete_get_empty_path:
  "PathTrie_get (PathTrie_delete '''' (PathTrie_set '''' (7::int) new_PathTrie)) '''' = Some 7"
  by (simp add: PathTrie_get_def PathTrie_delete_def PathTrie_set_def findNode_def
      toSegments_def new_PathTrie_def)

text \<open>
  C6, amended: for every trie, every value and every path with at least one non-empty
  segment, \<open>set(P, v)\<close> followed by \<open>delete(P)\<close> makes \<open>get(P)\<close> return absent.
\<close>

theorem PathTrie_set_delete_get:
  "toSegments P \<noteq> [] \<Longrightarrow>
   PathTrie_get (PathTrie_delete P (PathTrie_set P v root)) P = None"
  by (simp add: PathTrie_get_segments PathTrie_delete_def get_delete)

text \<open>The amended C6 at the path \<open>/Users/name\<close> of the test suite, on the empty trie.\<close>

theorem PathTrie_set_delete_get_witness:
  "toSegments ''/Users/name'' \<noteq> [] \<and>
   PathTrie_get (PathTrie_delete ''/Users/name''
     (PathTrie_set ''/Users/name'' (4::int) new_PathTrie)) ''/Users/name'' = None"
  using PathTrie_set_delete_get [of "''/Users/name''" "4::int" new_PathTrie] by simp


subsection \<open>C7: get after two sets\<close>

text \<open>
  C7, as stated, fails for two different strings with the same segments: \<open>/a\<close> and
  \<open>a\<close> name one node, and the later \<open>set\<close> overwrites the payload of the earlier.
\<close>

theorem PathTrie_get_distinct_strings_same_node:
  "''/a'' \<noteq> ''a'' \<and>
   PathTrie_get (PathTrie_set ''a'' 2 (PathTrie_set ''/a'' (1::int) new_PathTrie)) ''/a'' = Some 2"
  by (simp add: PathTrie_get_def PathTrie_set_def findNode_def toSegments_def new_PathTrie_def)

text \<open>
  C7, amended: for all paths P1 and P2 whose segment lists differ, and all values,
  after both are set, in either order, \<open>get(P1)\<close> returns the value set for P1.
\<close>

theorem PathTrie_get_after_two_sets:
  "toSegments P1 \<noteq> toSegments P2 \<Longrightarrow>
   PathTrie_get (PathTrie_set P2 v2 (PathTrie_set P1 v1 root)) P1 = Some v1 \<and>
   PathTrie_get (PathTrie_set P1 v1 (PathTrie_set P2 v2 root)) P1 = Some v1"
  by (simp add: PathTrie_get_segments PathTrie_set_def get_set_other get_set_same)

text \<open>The amended C7 at \<open>/Users/name\<close> and \<open>/Users\<close>, on the empty trie.\<close>

theorem PathTrie_get_after_two_sets_witness:
  "toSegments ''/Users/name'' \<noteq> toSegments ''/Users'' \<and>
   PathTrie_get (PathTrie_set ''/Users'' 3 (PathTrie_set ''/Users/name'' (4::int) new_PathTrie))
     ''/Users/name'' = Some 4 \<and>
   PathTrie_get (PathTrie_set ''/Users/name'' 4 (PathTrie_set ''/Users'' (3::int) new_PathTrie))
     ''/Users/name'' = Some 4"
proof -
  have ne: "toSegments ''/Users/name'' \<noteq> toSegments ''/Users''"
    by (simp add: toSegments_def)
  show ?thesis
    using ne PathTrie_get_after_two_sets [OF ne, of 3 "4::int" new_PathTrie] by simp
qed


subsection \<open>C8: findSubstr\<close>

text \<open>
  C8, as stated, fails on a trie with the payload 7 at the root, 0 at \<open>a\<close> and 5 at
  \<open>a/b\<close>: all three nodes on the way to \<open>a/b\<close> carry a payload that \<open>get\<close> returns,
  and \<open>findSubstr\<close> yields the last one only. The root is never yielded, because the
  generator yields after stepping to a child, and 0 is not, because \<open>if (cur.data)\<close>
  is false for it.
\<close>

theorem PathTrie_findSubstr_skips_root_and_zero:
  "PathTrie_get (PathTrie_set ''a/b'' 5 (PathTrie_set ''a'' 0 (PathTrie_set '''' 7 new_PathTrie)))
     '''' = Some 7 \<and>
   PathTrie_get (PathTrie_set ''a/b'' 5 (PathTrie_set ''a'' 0 (PathTrie_set '''' 7 new_PathTrie)))
     ''a'' = Some 0 \<and>
   PathTrie_get (PathTrie_set ''a/b'' 5 (PathTrie_set ''a'' 0 (PathTrie_set '''' 7 new_PathTrie)))
     ''a/b'' = Some 5 \<and>
   PathTrie_findSubstr truthy_number
     (PathTrie_set ''a/b'' 5 (PathTrie_set ''a'' 0 (PathTrie_set '''' 7 new_PathTrie)))
     ''a/b'' = [5]"
  by (simp add: PathTrie_get_def PathTrie_set_def PathTrie_findSubstr_def findNode_def
      toSegments_def new_PathTrie_def truthy_number_def)

text \<open>
  C8, amended: for every path P, \<open>findSubstr(P)\<close> yields exactly the truthy payloads
  stored at the nodes that the non-empty prefixes of P's segment list lead to, in
  root-to-leaf order (the payload of the root itself is never yielded, and a node
  without payload or with a falsy one is skipped); and once a prefix of the segments
  has no node in the trie, the segments after it yield nothing.
\<close>

theorem PathTrie_findSubstr_prefixes:
  "PathTrie_findSubstr truthy root P =
     concat (map (\<lambda>p. case get_from root p of
                         None \<Rightarrow> []
                       | Some d \<Rightarrow> if truthy d then [d] else [])
                 (tl (prefixes (toSegments P)))) \<and>
   (toSegments P = p @ rest \<and> findNode_from root p = None \<longrightarrow>
      PathTrie_findSubstr truthy root P = findSubstr_from truthy root p)"
  by (simp add: PathTrie_findSubstr_def findSubstr_from_stop
      findSubstr_from_prefixes [of truthy root "toSegments P"])

text \<open>
  The amended C8 on the trie with 4 at \<open>/Users/name\<close>: the path \<open>/Users/name\<close> yields
  4, and the walk stops at the missing node \<open>Users/name/Desktop\<close>.
\<close>

theorem PathTrie_findSubstr_prefixes_witness:
  "toSegments ''/Users/name/Desktop/x'' = [''Users'', ''name'', ''Desktop''] @ [''x''] \<and>
   findNode_from (PathTrie_set ''/Users/name'' (4::int) new_PathTrie)
     [''Users'', ''name'', ''Desktop''] = None \<and>
   PathTrie_findSubstr truthy_number (PathTrie_set ''/Users/name'' 4 new_PathTrie)
     ''/Users/name/Desktop/x'' = [4]"
proof -
  have segs: "toSegments ''/Users/name/Desktop/x'' = [''Users'', ''name'', ''Desktop''] @ [''x'']"
    by (simp add: toSegments_def)
  have miss: "findNode_from (PathTrie_set ''/Users/name'' (4::int) new_PathTrie)
      [''Users'', ''name'', ''Desktop''] = None"
    by (simp add: PathTrie_set_def new_PathTrie_def)
  have "PathTrie_findSubstr truthy_number (PathTrie_set ''/Users/name'' 4 new_PathTrie)
      ''/Users/name/Desktop/x''
    = findSubstr_from truthy_number (PathTrie_set ''/Users/name'' 4 new_PathTrie)
        [''Users'', ''name'', ''Desktop'']"
    using segs miss
      PathTrie_findSubstr_prefixes [of truthy_number "PathTrie_set ''/Users/name'' 4 new_PathTrie"
        "''/Users/name/Desktop/x''" "[''Users'', ''name'', ''Desktop'']" "[''x'']"]
    by blast
  then show ?thesis using segs miss
    by (simp add: PathTrie_set_def new_PathTrie_def truthy_number_def)
qed


lemma groupFiles_loop_skips_misses:
  "groupFiles_loop g ms acc other =
   groupFiles_loop g (filter (\<lambda>m. g (resource m) \<noteq> None) ms) acc other"
  by (induction ms arbitrary: acc other) (auto split: option.splits)

lemma groupFiles_loop_result:
  assumes "\<forall>m\<in>set ms. \<forall>fm res. g (resource m) = Some fm \<longrightarrow> folder_resource fm = Some res
             \<longrightarrow> res \<in> fst ` set acc"
  shows "\<exists>acc'. groupFiles_loop g ms acc other = Inr (acc', other @ filter (in_other g) ms)
           \<and> map fst acc' = map fst acc
           \<and> (\<forall>res. map_of acc' res
                  = map_option (\<lambda>bucket. bucket @ filter (in_bucket g res) ms) (map_of acc res))"
  using assms
proof (induction ms arbitrary: acc other)
  case Nil
  then show ?case by (simp add: option.map_ident)
next
  case (Cons m ms)
  show ?case
  proof (cases "g (resource m)")
    case None
    have "\<forall>m\<in>set ms. \<forall>fm res. g (resource m) = Some fm \<longrightarrow> folder_resource fm = Some res
             \<longrightarrow> res \<in> fst ` set acc"
      using Cons.prems by simp
    from Cons.IH [OF this, of other] None show ?thesis
      by (simp add: in_other_def in_bucket_def)
  next
    case (Some fm)
    show ?thesis
    proof (cases "folder_resource fm")
      case None
      have "\<forall>m\<in>set ms. \<forall>fm res. g (resource m) = Some fm \<longrightarrow> folder_resource fm = Some res
             \<longrightarrow> res \<in> fst ` set acc"
        using Cons.prems by simp
      from Cons.IH [OF this, of "other @ [m]"] Some None show ?thesis
        by (simp add: in_other_def in_bucket_def)
    next
      case res: (Some res)
      have "res \<in> fst ` set acc" using Cons.prems Some res by simp
      then obtain bucket where bucket: "map_of acc res = Some bucket"
        by (metis domD dom_map_of_conv_image_fst)
      let ?acc = "AList.update res (bucket @ [m]) acc"
      have keys: "map fst ?acc = map fst acc"
        using \<open>res \<in> fst ` set acc\<close> by (simp add: update_keys)
      have "\<forall>m\<in>set ms. \<forall>fm res. g (resource m) = Some fm \<longrightarrow> folder_resource fm = Some res
             \<longrightarrow> res \<in> fst ` set ?acc"
        using Cons.prems keys by (metis list.set_intros(2) set_map)
      from Cons.IH [OF this, of other]
      obtain acc' where acc': "groupFiles_loop g ms ?acc other = Inr (acc', other @ filter (in_other g) ms)"
          "map fst acc' = map fst ?acc"
          "\<forall>r. map_of acc' r = map_option (\<lambda>bucket. bucket @ filter (in_bucket g r) ms) (map_of ?acc r)"
        by blast
      have "groupFiles_loop g (m # ms) acc other = Inr (acc', other @ filter (in_other g) (m # ms))"
        using acc'(1) Some res bucket by (simp add: in_other_def)
      moreover have "map fst acc' = map fst acc" using acc'(2) keys by simp
      moreover have "map_of acc' r
          = map_option (\<lambda>bucket. bucket @ filter (in_bucket g r) (m # ms)) (map_of acc r)" for r
        using acc'(3) Some res bucket
        by (cases "r = res") (simp_all add: update_conv' in_bucket_def)
      ultimately show ?thesis by blast
    qed
  qed
qed

lemma fold_update_keys:
  "map_of (fold (\<lambda>fm rawPerFolder. AList.update (root_resource fm) [] rawPerFolder) roots acc) res
     = (if res \<in> root_resource ` set roots then Some [] else map_of acc res)"
  by (induction roots arbitrary: acc) (auto simp: update_conv')

lemma fold_update_distinct:
  "distinct (map fst acc) \<Longrightarrow>
   distinct (map fst (fold (\<lambda>fm rawPerFolder. AList.update (root_resource fm) [] rawPerFolder) roots acc))"
  by (induction roots arbitrary: acc) (simp_all add: distinct_update)

lemma getFolderMatch_with_resource:
  "getFolderMatch findSubstr h uri = Some fm \<Longrightarrow> folder_resource fm = Some res \<Longrightarrow>
   \<exists>root. fm = WorkspaceRoot root \<and> root_resource root = res
      \<and> findSubstr (h_folderMatchesMap h) uri = Some root"
  by (auto simp: getFolderMatch_def split: option.splits if_splits)

lemma groupFilesByFolder_result:
  fixes fileMatches :: "'f IFileMatch_scheme list"
  assumes "lookup_in_roots findSubstr h"
  shows "\<exists>byFolder. groupFilesByFolder findSubstr h fileMatches
             = Inr (byFolder, filter (in_other (getFolderMatch findSubstr h)) fileMatches)
           \<and> distinct (map fst byFolder)
           \<and> (\<forall>res. map_of byFolder res
                 = (if res \<in> root_resource ` set (h_folderMatches h)
                    then Some (filter (in_bucket (getFolderMatch findSubstr h) res) fileMatches)
                    else None))"
proof -
  let ?init = "fold (\<lambda>fm rawPerFolder. AList.update (root_resource fm) [] rawPerFolder)
      (h_folderMatches h) ([] :: (URI \<times> 'f IFileMatch_scheme list) list)"
  let ?g = "getFolderMatch findSubstr h"
  have init: "map_of ?init res = (if res \<in> root_resource ` set (h_folderMatches h) then Some [] else None)" for res
    by (simp add: fold_update_keys)
  have covered: "\<forall>m\<in>set fileMatches. \<forall>fm res. ?g (resource m) = Some fm \<longrightarrow> folder_resource fm = Some res
             \<longrightarrow> res \<in> fst ` set ?init"
  proof (intro ballI allI impI)
    fix m fm res
    assume "?g (resource m) = Some fm" "folder_resource fm = Some res"
    then obtain root where "root_resource root = res"
        "findSubstr (h_folderMatchesMap h) (resource m) = Some root"
      using getFolderMatch_with_resource by blast
    then have "res \<in> root_resource ` set (h_folderMatches h)"
      using assms by (auto simp: lookup_in_roots_def)
    then have "map_of ?init res = Some []" by (simp only: init if_True)
    then show "res \<in> fst ` set ?init" by (metis domI dom_map_of_conv_image_fst)
  qed
  from groupFiles_loop_result [OF covered, of "[]"]
  obtain acc' where acc': "groupFiles_loop ?g fileMatches ?init [] = Inr (acc', filter (in_other ?g) fileMatches)"
      "map fst acc' = map fst ?init"
      "\<forall>r. map_of acc' r = map_option (\<lambda>bucket. bucket @ filter (in_bucket ?g r) fileMatches) (map_of ?init r)"
    by (elim exE conjE) simp
  have "distinct (map fst ?init)" by (rule fold_update_distinct) simp
  then have "distinct (map fst acc')" using acc'(2) by simp
  moreover have "groupFilesByFolder findSubstr h fileMatches = Inr (acc', filter (in_other ?g) fileMatches)"
    using acc'(1) by (simp add: groupFilesByFolder_def)
  moreover have "\<forall>res. map_of acc' res
                 = (if res \<in> root_resource ` set (h_folderMatches h)
                    then Some (filter (in_bucket ?g res) fileMatches)
                    else None)"
    using acc'(3) init by simp
  ultimately show ?thesis by blast
qed

lemma groupFilesByFolder_skips_misses:
  "groupFilesByFolder findSubstr h fileMatches =
   groupFilesByFolder findSubstr h
     (filter (\<lambda>m. getFolderMatch findSubstr h (resource m) \<noteq> None) fileMatches)"
  unfolding groupFilesByFolder_def by (rule groupFiles_loop_skips_misses)


subsection \<open>Well-formed headings are what the operations produce\<close>

lemma sample_findSubstr_sound: "sound_findSubstr sample_findSubstr"
proof -
  have "sample_findSubstr entries uri = Some v \<Longrightarrow> v \<in> snd ` set entries"
    for entries :: "FolderMatchWorkspaceRootImpl TernarySearchTree" and uri v
    by (induction entries) (auto split: option.splits if_splits)
  then show ?thesis unfolding sound_findSubstr_def by blast
qed

lemma lookup_in_roots_empty_map:
  "sound_findSubstr findSubstr \<Longrightarrow> h_folderMatchesMap h = [] \<Longrightarrow> lookup_in_roots findSubstr h"
  unfolding sound_findSubstr_def lookup_in_roots_def by fastforce

lemma lookup_in_roots_new:
  "sound_findSubstr findSubstr \<Longrightarrow>
   lookup_in_roots findSubstr (new_TextSearchHeadingImpl allowOtherResults ident)"
  by (rule lookup_in_roots_empty_map) (simp_all add: new_TextSearchHeadingImpl_def)

lemma lookup_in_roots_set_query:
  assumes "sound_findSubstr findSubstr"
  shows "lookup_in_roots findSubstr (fst (set_query query h))"
proof (cases query)
  case None
  then show ?thesis
    by (intro lookup_in_roots_empty_map [OF assms]) (simp add: set_query_def)
next
  case (Some q)
  have "v \<in> set roots"
    if "findSubstr (map (\<lambda>fm. (root_resource fm, fm)) roots) uri = Some v" for roots uri v
  proof -
    from assms that have "v \<in> snd ` set (map (\<lambda>fm. (root_resource fm, fm)) roots)"
      unfolding sound_findSubstr_def by blast
    then show ?thesis by auto
  qed
  then show ?thesis using Some
    by (simp add: lookup_in_roots_def set_query_def Let_def)
qed

lemma lookup_in_roots_clear:
  "sound_findSubstr findSubstr \<Longrightarrow> lookup_in_roots findSubstr (fst (clear h))"
  by (rule lookup_in_roots_empty_map) (simp_all add: clear_def disposeMatches_def)

lemma lookup_in_roots_hide:
  "sound_findSubstr findSubstr \<Longrightarrow> lookup_in_roots findSubstr (fst (hide h))"
  unfolding hide_def by (rule lookup_in_roots_clear)

lemma lookup_in_roots_run_disposePastResults:
  "lookup_in_roots findSubstr h \<Longrightarrow> lookup_in_roots findSubstr (fst (run_disposePastResults h))"
  by (simp add: lookup_in_roots_def run_disposePastResults_def split: option.splits)

lemma lookup_in_roots_add:
  "lookup_in_roots findSubstr h \<Longrightarrow>
   add findSubstr allRaw searchInstanceID ai silent h = Inr (h', calls) \<Longrightarrow>
   lookup_in_roots findSubstr h'"
  by (auto simp: add_def lookup_in_roots_run_disposePastResults split: sum.splits)

lemma lookup_in_roots_dispose:
  "sound_findSubstr findSubstr \<Longrightarrow> lookup_in_roots findSubstr (fst (dispose h))"
  by (rule lookup_in_roots_empty_map)
     (simp_all add: dispose_def disposeMatches_def super_dispose_def run_disposePastResults_def
        split: option.splits)

lemma lookup_in_roots_replaceAll:
  "sound_findSubstr findSubstr \<Longrightarrow> lookup_in_roots findSubstr h \<Longrightarrow>
   lookup_in_roots findSubstr (fst (replaceAll allDownstreamFileMatches fulfilled progress h))"
  by (simp add: replaceAll_def replaceAll_fulfilled_def replaceAll_rejected_def
      lookup_in_roots_clear)

lemma instances_fresh_new: "instances_fresh (new_TextSearchHeadingImpl allowOtherResults ident)"
  by (simp add: instances_fresh_def new_TextSearchHeadingImpl_def)

lemma createWorkspaceRoots_instances:
  "fm \<in> set (createWorkspaceRoots h q) \<Longrightarrow>
   h_created h \<le> root_instance fm \<and> root_instance fm < h_created h + length (folderQueries q)"
  by (auto simp: createWorkspaceRoots_def in_set_enumerate_eq)

lemma length_createWorkspaceRoots [simp]:
  "length (createWorkspaceRoots h q) = length (folderQueries q)"
  by (simp add: createWorkspaceRoots_def)

lemma instances_fresh_set_query:
  assumes "instances_fresh h"
  shows "instances_fresh (fst (set_query query h))"
proof (cases query)
  case None
  then show ?thesis using assms
    by (simp add: set_query_def instances_fresh_def split: option.splits)
next
  case (Some q)
  let ?h1 = "h\<lparr> h_disposePastResults := Some (folderMatches h),
                  h_cachedSearchComplete := None, h_folderMatchesMap := [] \<rparr>"
  have roots: "\<forall>fm\<in>set (createWorkspaceRoots ?h1 q).
      root_instance fm < h_created h + length (folderQueries q)"
    using createWorkspaceRoots_instances [of _ ?h1 q] by simp
  show ?thesis using Some assms roots
    by (auto simp: set_query_def instances_fresh_def Let_def split: option.splits)
qed

lemma instances_fresh_clear: "instances_fresh (fst (clear h))"
  by (simp add: instances_fresh_def clear_def disposeMatches_def)

lemma instances_fresh_hide: "instances_fresh (fst (hide h))"
  unfolding hide_def by (rule instances_fresh_clear)

lemma instances_fresh_run_disposePastResults:
  "instances_fresh h \<Longrightarrow> instances_fresh (fst (run_disposePastResults h))"
  by (simp add: instances_fresh_def run_disposePastResults_def split: option.splits)

lemma instances_fresh_add:
  "instances_fresh h \<Longrightarrow>
   add findSubstr allRaw searchInstanceID ai silent h = Inr (h', calls) \<Longrightarrow>
   instances_fresh h'"
  by (auto simp: add_def instances_fresh_run_disposePastResults split: sum.splits)

lemma instances_fresh_dispose: "instances_fresh h \<Longrightarrow> instances_fresh (fst (dispose h))"
  by (simp add: instances_fresh_def dispose_def disposeMatches_def super_dispose_def
      run_disposePastResults_def split: option.splits)

lemma instances_fresh_replaceAll:
  "instances_fresh h \<Longrightarrow>
   instances_fresh (fst (replaceAll allDownstreamFileMatches fulfilled progress h))"
  by (simp add: replaceAll_def replaceAll_fulfilled_def replaceAll_rejected_def
      instances_fresh_clear)


subsection \<open>C5: groupFilesByFolder\<close>

text \<open>
  C5: on a heading whose lookups return its own folder matches, \<open>groupFilesByFolder\<close>
  returns, without an error: the bucket of each folder root holds, in order, the file
  matches whose URI resolves to a folder match with that root as resource, the
  list \<open>other\<close> those whose URI resolves to a folder match without resource, and a
  file match whose URI resolves to no folder match is in neither. On any heading,
  the file matches that resolve to nothing change nothing in the result: it is that
  of the list without them.
\<close>

theorem groupFilesByFolder_partition:
  fixes fileMatches :: "'f IFileMatch_scheme list"
  assumes "lookup_in_roots findSubstr h"
  shows "(\<exists>byFolder other.
            groupFilesByFolder findSubstr h fileMatches = Inr (byFolder, other)
            \<and> (\<forall>res. map_of byFolder res
                  = (if res \<in> root_resource ` set (h_folderMatches h)
                     then Some (filter (in_bucket (getFolderMatch findSubstr h) res) fileMatches)
                     else None))
            \<and> other = filter (in_other (getFolderMatch findSubstr h)) fileMatches
            \<and> (\<forall>m\<in>set fileMatches. getFolderMatch findSubstr h (resource m) = None
                  \<longrightarrow> m \<notin> set other \<and> (\<forall>res bucket. (res, bucket) \<in> set byFolder \<longrightarrow> m \<notin> set bucket)))
         \<and> groupFilesByFolder findSubstr h fileMatches
             = groupFilesByFolder findSubstr h
                 (filter (\<lambda>m. getFolderMatch findSubstr h (resource m) \<noteq> None) fileMatches)"
proof -
  let ?g = "getFolderMatch findSubstr h"
  from groupFilesByFolder_result [OF assms, of fileMatches]
  obtain byFolder where res:
      "groupFilesByFolder findSubstr h fileMatches = Inr (byFolder, filter (in_other ?g) fileMatches)"
      "distinct (map fst byFolder)"
      "\<forall>res. map_of byFolder res
          = (if res \<in> root_resource ` set (h_folderMatches h)
             then Some (filter (in_bucket ?g res) fileMatches) else None)"
    by blast
  have omitted: "m \<notin> set (filter (in_other ?g) fileMatches)
      \<and> (\<forall>res bucket. (res, bucket) \<in> set byFolder \<longrightarrow> m \<notin> set bucket)"
    if miss: "?g (resource m) = None" for m
  proof (intro conjI allI impI)
    show "m \<notin> set (filter (in_other ?g) fileMatches)"
      using miss by (simp add: in_other_def)
  next
    fix res bucket
    assume "(res, bucket) \<in> set byFolder"
    then have "map_of byFolder res = Some bucket" using res(2) by simp
    then have "bucket = filter (in_bucket ?g res) fileMatches"
      using res(3) by (simp split: if_splits)
    then show "m \<notin> set bucket" using miss by (simp add: in_bucket_def)
  qed
  show ?thesis
    using res(1) res(3) omitted groupFilesByFolder_skips_misses [of findSubstr h fileMatches]
    by blast
qed

lemma sample_heading_value:
  "sample_heading i =
     \<lparr> h_allowOtherResults = True, h_id = i, h_isDirty = False, h_showHighlights = False,
       h_query = Some sample_query,
       h_disposePastResults = Some [],
       h_folderMatches =
         [FolderMatchWorkspaceRootImpl 0 ''/w'' ''/w'' 0 sample_query i
            (i = AI_TEXT_SEARCH_RESULT_ID)],
       h_otherFilesMatch = Some (FolderMatchNoRootImpl 1 ''otherFiles'' 2 sample_query i),
       h_folderMatchesMap =
         [(''/w'', FolderMatchWorkspaceRootImpl 0 ''/w'' ''/w'' 0 sample_query i
                     (i = AI_TEXT_SEARCH_RESULT_ID))],
       h_hidden = False, h_cachedSearchComplete = None, h_created = 2,
       h_registered =
         [WorkspaceRoot (FolderMatchWorkspaceRootImpl 0 ''/w'' ''/w'' 0 sample_query i
                           (i = AI_TEXT_SEARCH_RESULT_ID)),
          NoRoot (FolderMatchNoRootImpl 1 ''otherFiles'' 2 sample_query i)] \<rparr>"
  by (simp add: sample_heading_def set_query_def new_TextSearchHeadingImpl_def folderMatches_def
      createWorkspaceRoots_def isAIContributed_def sample_query_def Let_def)

lemma sample_rooted_heading_value:
  "sample_rooted_heading =
     \<lparr> h_allowOtherResults = False, h_id = PLAIN_TEXT_SEARCH__RESULT_ID, h_isDirty = False,
       h_showHighlights = False,
       h_query = Some sample_query, h_disposePastResults = Some [],
       h_folderMatches =
         [FolderMatchWorkspaceRootImpl 0 ''/w'' ''/w'' 0 sample_query
            PLAIN_TEXT_SEARCH__RESULT_ID False],
       h_otherFilesMatch = None,
       h_folderMatchesMap =
         [(''/w'', FolderMatchWorkspaceRootImpl 0 ''/w'' ''/w'' 0 sample_query
                     PLAIN_TEXT_SEARCH__RESULT_ID False)],
       h_hidden = False, h_cachedSearchComplete = None, h_created = 1,
       h_registered =
         [WorkspaceRoot (FolderMatchWorkspaceRootImpl 0 ''/w'' ''/w'' 0 sample_query
                           PLAIN_TEXT_SEARCH__RESULT_ID False)] \<rparr>"
  by (simp add: sample_rooted_heading_def set_query_def new_TextSearchHeadingImpl_def
      folderMatches_def createWorkspaceRoots_def isAIContributed_def sample_query_def Let_def)

lemma lookup_in_roots_sample_heading: "lookup_in_roots sample_findSubstr (sample_heading i)"
  unfolding sample_heading_def
  by (rule lookup_in_roots_set_query [OF sample_findSubstr_sound])

lemma lookup_in_roots_sample_rooted_heading:
  "lookup_in_roots sample_findSubstr sample_rooted_heading"
  unfolding sample_rooted_heading_def
  by (rule lookup_in_roots_set_query [OF sample_findSubstr_sound])

text \<open>
  C5 on the heading without other results, with the folder root \<open>/w\<close>: the file under
  \<open>/w\<close> goes to its bucket, the file under \<open>/x\<close> resolves to nothing and is omitted.
\<close>

theorem groupFilesByFolder_partition_witness:
  "lookup_in_roots sample_findSubstr sample_rooted_heading \<and>
   groupFilesByFolder sample_findSubstr sample_rooted_heading
     [\<lparr> resource = ''/w/a.ts'', results = 1 \<rparr>, \<lparr> resource = ''/x/b.ts'', results = 2 \<rparr>]
     = Inr ([(''/w'', [\<lparr> resource = ''/w/a.ts'', results = 1 \<rparr>])], [])"
proof -
  note inv = lookup_in_roots_sample_rooted_heading
  have eval: "groupFilesByFolder sample_findSubstr sample_rooted_heading
      [\<lparr> resource = ''/w/a.ts'', results = 1 \<rparr>, \<lparr> resource = ''/x/b.ts'', results = 2 \<rparr>]
      = Inr ([(''/w'', [\<lparr> resource = ''/w/a.ts'', results = 1 \<rparr>])], [])"
    by (simp add: groupFilesByFolder_def getFolderMatch_def sample_rooted_heading_value)
  show ?thesis
    using inv eval
      groupFilesByFolder_partition [OF inv,
        of "[\<lparr> resource = ''/w/a.ts'', results = 1 \<rparr>, \<lparr> resource = ''/x/b.ts'', results = 2 \<rparr>]"]
    by blast
qed


subsection \<open>C10: add with ai = true\<close>

lemma run_disposePastResults_calls:
  "c \<in> set (snd (run_disposePastResults h)) \<Longrightarrow>
   (\<exists>fm d. c = FolderMatch_clear fm d) \<or> (\<exists>fm. c = FolderMatch_dispose fm)"
  by (auto simp: run_disposePastResults_def split: option.splits)

text \<open>
  C10: on a heading whose lookups return its own folder matches, \<open>add\<close> with
  \<open>ai = true\<close> returns, and every \<open>addFileMatch\<close> it calls is on a folder match of
  a workspace root and passes only raw matches whose URI is under a root of the
  lookup map: the bucket of the other files receives nothing. When the heading has
  that bucket, \<open>groupFilesByFolder\<close> did put the raw matches under no root into
  \<open>other\<close>, which \<open>add\<close> then drops. Both headings of a search result are
  constructed with other results allowed.
\<close>

theorem add_ai_never_adds_to_other:
  assumes "lookup_in_roots findSubstr h"
  shows "(\<exists>h' calls.
            add findSubstr allRaw searchInstanceID True silent h = Inr (h', calls)
            \<and> (\<forall>fm raw s i a. FolderMatch_addFileMatch fm raw s i a \<in> set calls
                  \<longrightarrow> (\<exists>root. fm = WorkspaceRoot root)
                      \<and> (\<forall>r\<in>set raw. findSubstr (h_folderMatchesMap h) (resource r) \<noteq> None)))
         \<and> (\<forall>byFolder other.
               groupFilesByFolder findSubstr h allRaw = Inr (byFolder, other)
               \<longrightarrow> h_allowOtherResults h \<longrightarrow> h_otherFilesMatch h \<noteq> None
               \<longrightarrow> other = filter (\<lambda>r. findSubstr (h_folderMatchesMap h) (resource r) = None) allRaw)
         \<and> h_allowOtherResults (plainTextSearchResult new_SearchResultImpl)
         \<and> h_allowOtherResults (aiTextSearchResult new_SearchResultImpl)"
proof -
  let ?g = "getFolderMatch findSubstr h"
  from groupFilesByFolder_result [OF assms, of allRaw]
  obtain byFolder where res:
      "groupFilesByFolder findSubstr h allRaw = Inr (byFolder, filter (in_other ?g) allRaw)"
      "distinct (map fst byFolder)"
      "\<forall>res. map_of byFolder res
          = (if res \<in> root_resource ` set (h_folderMatches h)
             then Some (filter (in_bucket ?g res) allRaw) else None)"
    by blast
  define calls where "calls =
    concat (map (\<lambda>(key, raw).
                case raw of
                  [] \<Rightarrow> []
                | first # _ \<Rightarrow>
                    (case ?g (resource first) of
                       None \<Rightarrow> []
                     | Some folderMatch \<Rightarrow>
                         [FolderMatch_addFileMatch folderMatch raw silent searchInstanceID
                            (isAIContributed h)]))
              byFolder)
    @ snd (run_disposePastResults h)"
  have add_eq: "add findSubstr allRaw searchInstanceID True silent h
      = Inr (fst (run_disposePastResults h), calls)"
    by (simp add: add_def res(1) calls_def)
  have only_roots: "(\<exists>root. fm = WorkspaceRoot root)
      \<and> (\<forall>r\<in>set raw. findSubstr (h_folderMatchesMap h) (resource r) \<noteq> None)"
    if c: "FolderMatch_addFileMatch fm raw s i a \<in> set calls" for fm raw s i a
  proof -
    from c have "FolderMatch_addFileMatch fm raw s i a \<notin> set (snd (run_disposePastResults h))"
      using run_disposePastResults_calls by blast
    with c obtain key raw' where entry: "(key, raw') \<in> set byFolder"
        and c': "FolderMatch_addFileMatch fm raw s i a \<in> set
          (case raw' of
             [] \<Rightarrow> []
           | first # _ \<Rightarrow>
               (case ?g (resource first) of
                  None \<Rightarrow> []
                | Some folderMatch \<Rightarrow>
                    [FolderMatch_addFileMatch folderMatch raw' silent searchInstanceID
                       (isAIContributed h)]))"
      unfolding calls_def by auto
    from c' obtain first rest where raw': "raw' = first # rest" "raw = raw'"
        and fm: "?g (resource first) = Some fm"
      by (auto split: list.splits option.splits)
    from entry res(2) have "map_of byFolder key = Some raw'" by simp
    with res(3) have bucket: "raw' = filter (in_bucket ?g key) allRaw"
      by (simp split: if_splits)
    have all: "in_bucket ?g key r" if "r \<in> set raw'" for r
      using that by (subst (asm) bucket) simp
    have "in_bucket ?g key first" using all raw'(1) by simp
    with fm have "folder_resource fm = Some key" by (simp add: in_bucket_def)
    then have "\<exists>root. fm = WorkspaceRoot root" by (cases fm) simp_all
    moreover have "findSubstr (h_folderMatchesMap h) (resource r) \<noteq> None" if "r \<in> set raw" for r
    proof -
      from that raw'(2) all have "in_bucket ?g key r" by simp
      then obtain fm' where "?g (resource r) = Some fm'" "folder_resource fm' = Some key"
        by (auto simp: in_bucket_def split: option.splits)
      then show ?thesis using getFolderMatch_with_resource by fastforce
    qed
    ultimately show ?thesis by blast
  qed
  have other: "filter (in_other ?g) allRaw
      = filter (\<lambda>r. findSubstr (h_folderMatchesMap h) (resource r) = None) allRaw"
    if "h_allowOtherResults h" "h_otherFilesMatch h \<noteq> None"
  proof (rule filter_cong [OF refl])
    fix r
    show "in_other ?g r = (findSubstr (h_folderMatchesMap h) (resource r) = None)"
      using that by (auto simp: in_other_def getFolderMatch_def split: option.splits)
  qed
  have ctor: "h_allowOtherResults (plainTextSearchResult new_SearchResultImpl)
      \<and> h_allowOtherResults (aiTextSearchResult new_SearchResultImpl)"
    by (simp add: new_SearchResultImpl_def new_TextSearchHeadingImpl_def)
  show ?thesis using add_eq only_roots other res(1) ctor by auto
qed

text \<open>
  C10 on the AI heading with the folder root \<open>/w\<close> and the bucket of the other
  files: of a raw match under \<open>/w\<close> and one under \<open>/x\<close>, grouped into the bucket of
  \<open>/w\<close> and into \<open>other\<close>, \<open>add\<close> with \<open>ai = true\<close> passes on the first only.
\<close>

theorem add_ai_never_adds_to_other_witness:
  "lookup_in_roots sample_findSubstr (sample_heading AI_TEXT_SEARCH_RESULT_ID) \<and>
   h_allowOtherResults (sample_heading AI_TEXT_SEARCH_RESULT_ID) \<and>
   h_otherFilesMatch (sample_heading AI_TEXT_SEARCH_RESULT_ID) \<noteq> None \<and>
   groupFilesByFolder sample_findSubstr (sample_heading AI_TEXT_SEARCH_RESULT_ID)
     [\<lparr> resource = ''/w/a.ts'', results = 1 \<rparr>, \<lparr> resource = ''/x/b.ts'', results = 2 \<rparr>]
     = Inr ([(''/w'', [\<lparr> resource = ''/w/a.ts'', results = 1 \<rparr>])],
            [\<lparr> resource = ''/x/b.ts'', results = 2 \<rparr>]) \<and>
   add sample_findSubstr
     [\<lparr> resource = ''/w/a.ts'', results = 1 \<rparr>, \<lparr> resource = ''/x/b.ts'', results = 2 \<rparr>]
     ''s'' True False (sample_heading AI_TEXT_SEARCH_RESULT_ID)
     = Inr (sample_heading AI_TEXT_SEARCH_RESULT_ID,
            [FolderMatch_addFileMatch
               (WorkspaceRoot (FolderMatchWorkspaceRootImpl 0 ''/w'' ''/w'' 0 sample_query
                                 AI_TEXT_SEARCH_RESULT_ID True))
               [\<lparr> resource = ''/w/a.ts'', results = 1 \<rparr>] False ''s'' True])"
proof -
  note inv = lookup_in_roots_sample_heading [of AI_TEXT_SEARCH_RESULT_ID]
  have flags: "h_allowOtherResults (sample_heading AI_TEXT_SEARCH_RESULT_ID)"
      "h_otherFilesMatch (sample_heading AI_TEXT_SEARCH_RESULT_ID) \<noteq> None"
    by (simp_all add: sample_heading_value)
  have grouped: "groupFilesByFolder sample_findSubstr (sample_heading AI_TEXT_SEARCH_RESULT_ID)
      [\<lparr> resource = ''/w/a.ts'', results = 1 \<rparr>, \<lparr> resource = ''/x/b.ts'', results = 2 \<rparr>]
      = Inr ([(''/w'', [\<lparr> resource = ''/w/a.ts'', results = 1 \<rparr>])],
             [\<lparr> resource = ''/x/b.ts'', results = 2 \<rparr>])"
    by (simp add: groupFilesByFolder_def getFolderMatch_def sample_heading_value)
  have added: "add sample_findSubstr
      [\<lparr> resource = ''/w/a.ts'', results = 1 \<rparr>, \<lparr> resource = ''/x/b.ts'', results = 2 \<rparr>]
      ''s'' True False (sample_heading AI_TEXT_SEARCH_RESULT_ID)
      = Inr (sample_heading AI_TEXT_SEARCH_RESULT_ID,
             [FolderMatch_addFileMatch
                (WorkspaceRoot (FolderMatchWorkspaceRootImpl 0 ''/w'' ''/w'' 0 sample_query
                                  AI_TEXT_SEARCH_RESULT_ID True))
                [\<lparr> resource = ''/w/a.ts'', results = 1 \<rparr>] False ''s'' True])"
    unfolding add_def grouped
    by (simp add: getFolderMatch_def run_disposePastResults_def isAIContributed_def
        sample_heading_value)
  show ?thesis
    using inv flags grouped added
      add_ai_never_adds_to_other [OF inv,
        of "[\<lparr> resource = ''/w/a.ts'', results = 1 \<rparr>, \<lparr> resource = ''/x/b.ts'', results = 2 \<rparr>]"
           "''s''" False]
    by blast
qed


subsection \<open>C9: the query setter with null\<close>

lemma folderMatches_cong:
  "h_folderMatches h' = h_folderMatches h \<Longrightarrow> h_otherFilesMatch h' = h_otherFilesMatch h \<Longrightarrow>
   h_allowOtherResults h' = h_allowOtherResults h \<Longrightarrow> folderMatches h' = folderMatches h"
  by (simp add: folderMatches_def split: option.splits)

lemma add_frame:
  "add findSubstr allRaw searchInstanceID ai silent h = Inr (h', calls) \<Longrightarrow>
   folderMatches h' = folderMatches h \<and> get_query h' = get_query h
   \<and> h_disposePastResults h' = h_disposePastResults h"
  by (auto simp: add_def run_disposePastResults_def get_query_def
      intro!: folderMatches_cong split: sum.splits option.splits)

text \<open>
  What an operation leaves alone: every operation but the query setter keeps the
  closure \<open>disposePastResults\<close> and adds no folder match, and the operations that
  neither set a query that is not null nor clear or dispose the heading keep the
  query and the folder matches.
\<close>

lemma folderMatches_clear [simp]: "folderMatches (fst (clear h)) = []"
  by (simp add: clear_def disposeMatches_def folderMatches_def)

lemma toggleHighlights_frame:
  "h_disposePastResults (fst (toggleHighlights a n g v h)) = h_disposePastResults h
   \<and> h_query (fst (toggleHighlights a n g v h)) = h_query h
   \<and> h_folderMatches (fst (toggleHighlights a n g v h)) = h_folderMatches h
   \<and> h_otherFilesMatch (fst (toggleHighlights a n g v h)) = h_otherFilesMatch h
   \<and> h_allowOtherResults (fst (toggleHighlights a n g v h)) = h_allowOtherResults h
   \<and> h_folderMatchesMap (fst (toggleHighlights a n g v h)) = h_folderMatchesMap h
   \<and> h_created (fst (toggleHighlights a n g v h)) = h_created h"
  by (simp add: toggleHighlights_def Let_def)

lemma run_op_add:
  "run_op findSubstr (OpAdd allRaw searchInstanceID ai silent) h = fst (run_disposePastResults h)
   \<or> run_op findSubstr (OpAdd allRaw searchInstanceID ai silent) h = h"
  by (auto simp: add_def split: sum.splits)

lemma run_disposePastResults_frame:
  "h_disposePastResults (fst (run_disposePastResults h)) = h_disposePastResults h
   \<and> h_query (fst (run_disposePastResults h)) = h_query h
   \<and> folderMatches (fst (run_disposePastResults h)) = folderMatches h"
  by (auto simp: run_disposePastResults_def intro!: folderMatches_cong split: option.splits)

lemma run_op_keeps_disposePastResults:
  "\<not> is_set_query op \<Longrightarrow>
   h_disposePastResults (run_op findSubstr op h) = h_disposePastResults h"
proof (cases op)
  case (OpAdd allRaw searchInstanceID ai silent)
  then show ?thesis
    using run_op_add [of findSubstr allRaw searchInstanceID ai silent h]
      run_disposePastResults_frame [of h] by auto
next
  case (OpToggleHighlights a n g v)
  then show ?thesis by (simp add: toggleHighlights_frame)
qed (simp_all add: clear_def hide_def dispose_def disposeMatches_def super_dispose_def
      run_disposePastResults_def replaceAll_def replaceAll_fulfilled_def replaceAll_rejected_def
      split: option.splits)

lemma folderMatches_subset:
  "set (h_folderMatches h') \<subseteq> set (h_folderMatches h) \<Longrightarrow>
   h_otherFilesMatch h' = h_otherFilesMatch h \<or> h_otherFilesMatch h' = None \<Longrightarrow>
   h_allowOtherResults h' = h_allowOtherResults h \<Longrightarrow>
   set (folderMatches h') \<subseteq> set (folderMatches h)"
  by (auto simp: folderMatches_def split: option.splits)

lemma run_op_folderMatches_subset:
  assumes "\<not> is_set_query op"
  shows "set (folderMatches (run_op findSubstr op h)) \<subseteq> set (folderMatches h)"
proof (cases op)
  case (OpAdd allRaw searchInstanceID ai silent)
  then show ?thesis
    using run_op_add [of findSubstr allRaw searchInstanceID ai silent h]
      run_disposePastResults_frame [of h] by auto
next
  case (OpSetQuery query)
  with assms show ?thesis by simp
next
  case OpDispose
  have "set (folderMatches (fst (dispose h))) \<subseteq> set (folderMatches h)"
    by (rule folderMatches_subset)
       (simp_all add: dispose_def disposeMatches_def super_dispose_def run_disposePastResults_def
          split: option.splits)
  with OpDispose show ?thesis by simp
next
  case (OpReplaceAll a fulfilled progress)
  then show ?thesis
    by (simp add: replaceAll_def replaceAll_fulfilled_def replaceAll_rejected_def)
next
  case (OpToggleHighlights a n g v)
  have "folderMatches (fst (toggleHighlights a n g v h)) = folderMatches h"
    by (rule folderMatches_cong) (simp_all add: toggleHighlights_frame)
  with OpToggleHighlights show ?thesis by simp
qed (simp_all add: hide_def)

lemma run_ops_keeps_disposePastResults:
  "\<forall>op\<in>set ops. \<not> is_set_query op \<Longrightarrow>
   h_disposePastResults (run_ops findSubstr ops h) = h_disposePastResults h"
  by (induction ops arbitrary: h) (simp_all add: run_op_keeps_disposePastResults)

lemma run_ops_folderMatches_subset:
  "\<forall>op\<in>set ops. \<not> is_set_query op \<Longrightarrow>
   set (folderMatches (run_ops findSubstr ops h)) \<subseteq> set (folderMatches h)"
proof (induction ops arbitrary: h)
  case Nil
  then show ?case by simp
next
  case (Cons op ops)
  then have "set (folderMatches (run_ops findSubstr ops (run_op findSubstr op h)))
      \<subseteq> set (folderMatches (run_op findSubstr op h))"
    by simp
  moreover have "set (folderMatches (run_op findSubstr op h)) \<subseteq> set (folderMatches h)"
    using Cons.prems by (intro run_op_folderMatches_subset) simp
  ultimately show ?case by auto
qed

lemma run_op_keeps_query_and_folderMatches:
  assumes "\<not> sets_clears_or_disposes op"
  shows "get_query (run_op findSubstr op h) = get_query h
    \<and> folderMatches (run_op findSubstr op h) = folderMatches h"
proof (cases op)
  case (OpAdd allRaw searchInstanceID ai silent)
  then show ?thesis
    using run_op_add [of findSubstr allRaw searchInstanceID ai silent h]
      run_disposePastResults_frame [of h] by (auto simp: get_query_def)
next
  case (OpSetQuery query)
  with assms have null: "query = None" by simp
  have "folderMatches (fst (set_query None h)) = folderMatches h"
    by (rule folderMatches_cong) (simp_all add: set_query_def)
  then show ?thesis using OpSetQuery null by (simp add: get_query_def set_query_def)
next
  case (OpReplaceAll a fulfilled progress)
  with assms show ?thesis by (simp add: replaceAll_def replaceAll_rejected_def)
next
  case (OpToggleHighlights a n g v)
  have "folderMatches (fst (toggleHighlights a n g v h)) = folderMatches h"
    by (rule folderMatches_cong) (simp_all add: toggleHighlights_frame)
  with OpToggleHighlights show ?thesis by (simp add: get_query_def toggleHighlights_frame)
qed (use assms in simp_all)

lemma run_ops_keeps_query_and_folderMatches:
  "\<forall>op\<in>set ops. \<not> sets_clears_or_disposes op \<Longrightarrow>
   get_query (run_ops findSubstr ops h) = get_query h
   \<and> folderMatches (run_ops findSubstr ops h) = folderMatches h"
  by (induction ops arbitrary: h) (simp_all add: run_op_keeps_query_and_folderMatches)

text \<open>
  Every operation keeps a heading well-formed: its lookups return its own folder
  matches, and the folder matches it holds were created by it.
\<close>

lemma lookup_in_roots_run_op:
  assumes "sound_findSubstr findSubstr" and "lookup_in_roots findSubstr h"
  shows "lookup_in_roots findSubstr (run_op findSubstr op h)"
proof (cases op)
  case (OpAdd allRaw searchInstanceID ai silent)
  then show ?thesis
    using run_op_add [of findSubstr allRaw searchInstanceID ai silent h] assms(2)
      lookup_in_roots_run_disposePastResults [of findSubstr h] by auto
next
  case (OpToggleHighlights a n g v)
  then show ?thesis using assms(2)
    by (simp add: lookup_in_roots_def toggleHighlights_frame)
qed (use assms in \<open>simp_all add: lookup_in_roots_set_query lookup_in_roots_clear
      lookup_in_roots_hide lookup_in_roots_dispose lookup_in_roots_replaceAll\<close>)

lemma lookup_in_roots_run_ops:
  "sound_findSubstr findSubstr \<Longrightarrow> lookup_in_roots findSubstr h \<Longrightarrow>
   lookup_in_roots findSubstr (run_ops findSubstr ops h)"
  by (induction ops arbitrary: h) (simp_all add: lookup_in_roots_run_op)

lemma instances_fresh_run_op:
  assumes "instances_fresh h"
  shows "instances_fresh (run_op findSubstr op h)"
proof (cases op)
  case (OpAdd allRaw searchInstanceID ai silent)
  then show ?thesis
    using run_op_add [of findSubstr allRaw searchInstanceID ai silent h] assms
      instances_fresh_run_disposePastResults [of h] by auto
next
  case (OpToggleHighlights a n g v)
  then show ?thesis using assms
    by (simp add: instances_fresh_def toggleHighlights_frame split: option.splits)
qed (use assms in \<open>simp_all add: instances_fresh_set_query instances_fresh_clear
      instances_fresh_hide instances_fresh_dispose instances_fresh_replaceAll\<close>)

lemma instances_fresh_run_ops:
  "instances_fresh h \<Longrightarrow> instances_fresh (run_ops findSubstr ops h)"
  by (induction ops arbitrary: h) (simp_all add: instances_fresh_run_op)

text \<open>
  C9, as stated, fails when the heading is disposed after its query was set to
  null: no query that is not null was set and \<open>clear()\<close> was not called, but
  \<open>dispose()\<close> runs \<open>disposeMatches()\<close>, which empties \<open>_folderMatches\<close>, and
  \<open>folderMatches()\<close> then returns the bucket of the other files alone.
\<close>

theorem set_query_null_then_dispose_changes_folderMatches:
  "folderMatches (sample_heading PLAIN_TEXT_SEARCH__RESULT_ID)
     = [WorkspaceRoot (FolderMatchWorkspaceRootImpl 0 ''/w'' ''/w'' 0 sample_query
                         PLAIN_TEXT_SEARCH__RESULT_ID False),
        NoRoot (FolderMatchNoRootImpl 1 ''otherFiles'' 2 sample_query
                  PLAIN_TEXT_SEARCH__RESULT_ID)]
   \<and> folderMatches (fst (dispose (fst (set_query None
         (sample_heading PLAIN_TEXT_SEARCH__RESULT_ID)))))
     = [NoRoot (FolderMatchNoRootImpl 1 ''otherFiles'' 2 sample_query
                  PLAIN_TEXT_SEARCH__RESULT_ID)]"
  by (simp add: folderMatches_def dispose_def disposeMatches_def super_dispose_def
      run_disposePastResults_def set_query_def sample_heading_value)

text \<open>
  C9, amended: the query setter called with null empties the cached search completion
  and the lookup map and removes the highlight range, and leaves the stored query
  and the folder matches as they were: the getter \<open>query\<close> and \<open>folderMatches()\<close>
  return what they returned before, and go on doing so through every sequence of
  operations (\<open>add\<close>, \<open>remove\<close>, \<open>replace\<close>, \<open>toggleHighlights\<close>, the setter
  with null, a \<open>replaceAll\<close> whose promise is rejected) in which no query that is
  not null is set and the heading is neither cleared (\<open>clear\<close>, \<open>hide\<close>, a
  \<open>replaceAll\<close> whose promise is fulfilled) nor disposed.
\<close>

theorem set_query_null_keeps_query_and_folderMatches:
  assumes "\<forall>op\<in>set ops. \<not> sets_clears_or_disposes op"
  shows "h_cachedSearchComplete (fst (set_query None h)) = None
   \<and> h_folderMatchesMap (fst (set_query None h)) = []
   \<and> snd (set_query None h) = [RangeHighlightDecorations_removeHighlightRange (h_id h)]
   \<and> get_query (fst (set_query None h)) = get_query h
   \<and> h_folderMatches (fst (set_query None h)) = h_folderMatches h
   \<and> h_otherFilesMatch (fst (set_query None h)) = h_otherFilesMatch h
   \<and> folderMatches (fst (set_query None h)) = folderMatches h
   \<and> get_query (run_ops findSubstr ops (fst (set_query None h))) = get_query h
   \<and> folderMatches (run_ops findSubstr ops (fst (set_query None h))) = folderMatches h"
proof -
  have frame: "get_query (fst (set_query None h)) = get_query h
      \<and> folderMatches (fst (set_query None h)) = folderMatches h"
  proof
    show "get_query (fst (set_query None h)) = get_query h"
      by (simp add: set_query_def get_query_def)
    show "folderMatches (fst (set_query None h)) = folderMatches h"
      by (rule folderMatches_cong) (simp_all add: set_query_def)
  qed
  have fields: "h_cachedSearchComplete (fst (set_query None h)) = None
      \<and> h_folderMatchesMap (fst (set_query None h)) = []
      \<and> snd (set_query None h) = [RangeHighlightDecorations_removeHighlightRange (h_id h)]
      \<and> h_folderMatches (fst (set_query None h)) = h_folderMatches h
      \<and> h_otherFilesMatch (fst (set_query None h)) = h_otherFilesMatch h"
    by (simp add: set_query_def)
  show ?thesis
    using fields frame
      run_ops_keeps_query_and_folderMatches [OF assms, of findSubstr "fst (set_query None h)"]
    by simp
qed

text \<open>
  The amended C9 on the plain heading with the folder root \<open>/w\<close> and a cached search
  completion: after the setter with null and then an \<open>add\<close>, the setter with null
  again, a \<open>remove\<close>, a \<open>replaceAll\<close> whose promise is rejected and
  \<open>toggleHighlights\<close>, the query and the two folder matches are the ones of before.
\<close>

theorem set_query_null_keeps_query_and_folderMatches_witness:
  "\<not> sets_clears_or_disposes
       (OpAdd [\<lparr> resource = ''/w/a.ts'', results = 2 \<rparr>] ''s'' False False)
   \<and> \<not> sets_clears_or_disposes (OpSetQuery None)
   \<and> \<not> sets_clears_or_disposes (OpRemove (Many []) False)
   \<and> \<not> sets_clears_or_disposes (OpReplaceAll (\<lambda>fm. []) False 0)
   \<and> \<not> sets_clears_or_disposes
       (OpToggleHighlights (\<lambda>fm. []) (\<lambda>f. False) (\<lambda>f. None) True)
   \<and> get_query (run_ops sample_findSubstr
        [OpAdd [\<lparr> resource = ''/w/a.ts'', results = 2 \<rparr>] ''s'' False False,
         OpSetQuery None,
         OpRemove (Many []) False,
         OpReplaceAll (\<lambda>fm. []) False 0,
         OpToggleHighlights (\<lambda>fm. []) (\<lambda>f. False) (\<lambda>f. None) True]
        (fst (set_query None
           ((sample_heading PLAIN_TEXT_SEARCH__RESULT_ID)\<lparr> h_cachedSearchComplete := Some 5 \<rparr>))))
       = Some sample_query
   \<and> folderMatches (run_ops sample_findSubstr
        [OpAdd [\<lparr> resource = ''/w/a.ts'', results = 2 \<rparr>] ''s'' False False,
         OpSetQuery None,
         OpRemove (Many []) False,
         OpReplaceAll (\<lambda>fm. []) False 0,
         OpToggleHighlights (\<lambda>fm. []) (\<lambda>f. False) (\<lambda>f. None) True]
        (fst (set_query None
           ((sample_heading PLAIN_TEXT_SEARCH__RESULT_ID)\<lparr> h_cachedSearchComplete := Some 5 \<rparr>))))
       = [WorkspaceRoot (FolderMatchWorkspaceRootImpl 0 ''/w'' ''/w'' 0 sample_query
                           PLAIN_TEXT_SEARCH__RESULT_ID False),
          NoRoot (FolderMatchNoRootImpl 1 ''otherFiles'' 2 sample_query
                    PLAIN_TEXT_SEARCH__RESULT_ID)]
   \<and> h_cachedSearchComplete (fst (set_query None
        ((sample_heading PLAIN_TEXT_SEARCH__RESULT_ID)\<lparr> h_cachedSearchComplete := Some 5 \<rparr>)))
       = None"
proof -
  let ?h = "(sample_heading PLAIN_TEXT_SEARCH__RESULT_ID)\<lparr> h_cachedSearchComplete := Some 5 \<rparr>"
  let ?ops = "[OpAdd [\<lparr> resource = ''/w/a.ts'', results = 2 \<rparr>] ''s'' False False,
               OpSetQuery None,
               OpRemove (Many []) False,
               OpReplaceAll (\<lambda>fm. []) False 0,
               OpToggleHighlights (\<lambda>fm. []) (\<lambda>f. False) (\<lambda>f. None) True]"
  have allowed: "\<forall>op\<in>set ?ops. \<not> sets_clears_or_disposes op" by simp
  have before: "get_query ?h = Some sample_query"
      "folderMatches ?h
        = [WorkspaceRoot (FolderMatchWorkspaceRootImpl 0 ''/w'' ''/w'' 0 sample_query
                            PLAIN_TEXT_SEARCH__RESULT_ID False),
           NoRoot (FolderMatchNoRootImpl 1 ''otherFiles'' 2 sample_query
                     PLAIN_TEXT_SEARCH__RESULT_ID)]"
    by (simp_all add: get_query_def folderMatches_def sample_heading_value)
  from set_query_null_keeps_query_and_folderMatches [OF allowed, of ?h sample_findSubstr]
  have "get_query (run_ops sample_findSubstr ?ops (fst (set_query None ?h))) = get_query ?h"
      "folderMatches (run_ops sample_findSubstr ?ops (fst (set_query None ?h))) = folderMatches ?h"
      "h_cachedSearchComplete (fst (set_query None ?h)) = None"
    by blast+
  then show ?thesis using before by simp
qed


subsection \<open>C3: replaceAll of the plain heading\<close>

lemma snd_clear:
  "snd (clear h)
     = map (\<lambda>folderMatch. FolderMatch_clear folderMatch (Some True)) (folderMatches h)
       @ map FolderMatch_dispose (folderMatches h)
       @ [RangeHighlightDecorations_removeHighlightRange (h_id h)]"
  by (simp add: clear_def disposeMatches_def)




subsection \<open>C4: the query setter and the folder matches of the previous query\<close>

lemma old_instances:
  "instances_fresh h \<Longrightarrow> fm \<in> set (folderMatches h) \<Longrightarrow> folder_instance fm < h_created h"
  by (auto simp: instances_fresh_def folderMatches_def split: option.splits if_splits)

lemma new_instances:
  assumes "fm \<in> set (folderMatches (fst (set_query (Some q) h)))"
  shows "h_created h \<le> folder_instance fm"
proof -
  from assms show ?thesis
    by (auto simp: set_query_def folderMatches_def Let_def
        dest!: createWorkspaceRoots_instances split: option.splits if_splits)
qed

lemma set_query_calls:
  "snd (set_query query h) = [RangeHighlightDecorations_removeHighlightRange (h_id h)]"
  by (cases query) (simp_all add: set_query_def Let_def)

lemma set_query_disposePastResults:
  "h_disposePastResults (fst (set_query query h)) = Some (folderMatches h)"
  by (cases query) (simp_all add: set_query_def Let_def)

lemma add_calls:
  assumes "add findSubstr allRaw searchInstanceID ai silent h = Inr (h', calls)"
  shows "\<exists>added. calls = added @ snd (run_disposePastResults h)
           \<and> (\<forall>c\<in>set added. \<exists>fm raw s i a. c = FolderMatch_addFileMatch fm raw s i a)"
proof -
  from assms obtain byFolder other where
      grouped: "groupFilesByFolder findSubstr h allRaw = Inr (byFolder, other)"
    by (auto simp: add_def split: sum.splits)
  define folders where "folders =
    concat (map (\<lambda>(key, raw).
                case raw of
                  [] \<Rightarrow> []
                | first # _ \<Rightarrow>
                    (case getFolderMatch findSubstr h (resource first) of
                       None \<Rightarrow> []
                     | Some folderMatch \<Rightarrow>
                         [FolderMatch_addFileMatch folderMatch raw silent searchInstanceID
                            (isAIContributed h)]))
              byFolder)"
  define others where "others =
    (if \<not> ai
     then (case h_otherFilesMatch h of
             None \<Rightarrow> []
           | Some otherFilesMatch \<Rightarrow>
               [FolderMatch_addFileMatch (NoRoot otherFilesMatch) other silent
                  searchInstanceID False])
     else [])"
  have "calls = (folders @ others) @ snd (run_disposePastResults h)"
    using assms grouped by (simp add: add_def folders_def others_def)
  moreover have "\<exists>fm raw s i a. c = FolderMatch_addFileMatch fm raw s i a"
    if "c \<in> set folders" for c
  proof -
    from that obtain key raw where "(key, raw) \<in> set byFolder"
        and c: "c \<in> set (case raw of
                      [] \<Rightarrow> []
                    | first # _ \<Rightarrow>
                        (case getFolderMatch findSubstr h (resource first) of
                           None \<Rightarrow> []
                         | Some folderMatch \<Rightarrow>
                             [FolderMatch_addFileMatch folderMatch raw silent searchInstanceID
                                (isAIContributed h)]))"
      unfolding folders_def by auto
    show ?thesis
    proof (cases raw)
      case Nil
      with c show ?thesis by simp
    next
      case (Cons first rest)
      with c show ?thesis
        by (cases "getFolderMatch findSubstr h (resource first)") auto
    qed
  qed
  moreover have "\<exists>fm raw s i a. c = FolderMatch_addFileMatch fm raw s i a"
    if "c \<in> set others" for c
    using that unfolding others_def
    by (cases ai; cases "h_otherFilesMatch h") auto
  ultimately have "calls = (folders @ others) @ snd (run_disposePastResults h)
      \<and> (\<forall>c\<in>set (folders @ others). \<exists>fm raw s i a. c = FolderMatch_addFileMatch fm raw s i a)"
    by auto
  then show ?thesis by blast
qed

lemma run_disposePastResults_Some:
  "h_disposePastResults h = Some old \<Longrightarrow>
   snd (run_disposePastResults h)
     = map (\<lambda>match. FolderMatch_clear match None) old @ map FolderMatch_dispose old"
  by (simp add: run_disposePastResults_def)

lemma dispose_calls:
  "h_disposePastResults h = Some old \<Longrightarrow>
   snd (dispose h)
     = ([RangeHighlightDecorations_dispose (h_id h)] @ snd (disposeMatches h)
        @ snd (super_dispose (fst (disposeMatches h))))
       @ map (\<lambda>match. FolderMatch_clear match None) old @ map FolderMatch_dispose old"
  by (simp add: dispose_def disposeMatches_def super_dispose_def run_disposePastResults_def)

lemma sample_heading2_value:
  "sample_heading2 i =
     \<lparr> h_allowOtherResults = True, h_id = i, h_isDirty = False, h_showHighlights = False,
       h_query = Some sample_query,
       h_disposePastResults =
         Some [WorkspaceRoot (FolderMatchWorkspaceRootImpl 0 ''/w'' ''/w'' 0 sample_query i
                               (i = AI_TEXT_SEARCH_RESULT_ID)),
               NoRoot (FolderMatchNoRootImpl 1 ''otherFiles'' 2 sample_query i)],
       h_folderMatches =
         [FolderMatchWorkspaceRootImpl 2 ''/w'' ''/w'' 0 sample_query i
            (i = AI_TEXT_SEARCH_RESULT_ID)],
       h_otherFilesMatch = Some (FolderMatchNoRootImpl 3 ''otherFiles'' 2 sample_query i),
       h_folderMatchesMap =
         [(''/w'', FolderMatchWorkspaceRootImpl 2 ''/w'' ''/w'' 0 sample_query i
                     (i = AI_TEXT_SEARCH_RESULT_ID))],
       h_hidden = False, h_cachedSearchComplete = None, h_created = 4,
       h_registered =
         [WorkspaceRoot (FolderMatchWorkspaceRootImpl 0 ''/w'' ''/w'' 0 sample_query i
                           (i = AI_TEXT_SEARCH_RESULT_ID)),
          NoRoot (FolderMatchNoRootImpl 1 ''otherFiles'' 2 sample_query i),
          WorkspaceRoot (FolderMatchWorkspaceRootImpl 2 ''/w'' ''/w'' 0 sample_query i
                           (i = AI_TEXT_SEARCH_RESULT_ID)),
          NoRoot (FolderMatchNoRootImpl 3 ''otherFiles'' 2 sample_query i)] \<rparr>"
  unfolding sample_heading2_def sample_heading_value
  by (simp add: set_query_def folderMatches_def createWorkspaceRoots_def isAIContributed_def
      sample_query_def Let_def)

lemma add_nothing_sample_heading2:
  "add sample_findSubstr [] ''s'' False False (sample_heading2 PLAIN_TEXT_SEARCH__RESULT_ID)
     = Inr (sample_heading2 PLAIN_TEXT_SEARCH__RESULT_ID,
            [FolderMatch_addFileMatch
               (NoRoot (FolderMatchNoRootImpl 3 ''otherFiles'' 2 sample_query
                          PLAIN_TEXT_SEARCH__RESULT_ID)) [] False ''s'' False,
             FolderMatch_clear
               (WorkspaceRoot (FolderMatchWorkspaceRootImpl 0 ''/w'' ''/w'' 0 sample_query
                                 PLAIN_TEXT_SEARCH__RESULT_ID False)) None,
             FolderMatch_clear
               (NoRoot (FolderMatchNoRootImpl 1 ''otherFiles'' 2 sample_query
                          PLAIN_TEXT_SEARCH__RESULT_ID)) None,
             FolderMatch_dispose
               (WorkspaceRoot (FolderMatchWorkspaceRootImpl 0 ''/w'' ''/w'' 0 sample_query
                                 PLAIN_TEXT_SEARCH__RESULT_ID False)),
             FolderMatch_dispose
               (NoRoot (FolderMatchNoRootImpl 1 ''otherFiles'' 2 sample_query
                          PLAIN_TEXT_SEARCH__RESULT_ID))])"
  by (simp add: add_def groupFilesByFolder_def run_disposePastResults_def
      sample_heading2_value)

text \<open>
  C4, as stated, fails on a heading whose query was set and then replaced, when
  results are added twice: \<open>add\<close> ends in \<open>this.disposePastResults()\<close>, the closure
  stays in place after it has run, and so the second \<open>add\<close> calls \<open>dispose()\<close> on
  the folder match of the first query a second time.
\<close>

theorem set_query_old_folderMatch_disposed_twice:
  "(case add sample_findSubstr [] ''s'' False False
           (sample_heading2 PLAIN_TEXT_SEARCH__RESULT_ID) of
      Inl e \<Rightarrow> 0
    | Inr (h', calls1) \<Rightarrow>
        (case add sample_findSubstr [] ''s'' False False h' of
           Inl e \<Rightarrow> 0
         | Inr (h'', calls2) \<Rightarrow>
             count_list (calls1 @ calls2)
               (FolderMatch_dispose
                  (WorkspaceRoot (FolderMatchWorkspaceRootImpl 0 ''/w'' ''/w'' 0 sample_query
                                    PLAIN_TEXT_SEARCH__RESULT_ID False)))))
   = 2"
  by (simp add: add_nothing_sample_heading2)

text \<open>
  C4, amended: on a heading that holds folder matches it has created, after the query
  setter is invoked with a non-null query no folder match of the previous query is
  in \<open>folderMatches()\<close>, then or after any later operations short of another call
  of the setter. The setter itself calls neither \<open>clear\<close> nor \<open>dispose\<close>: it
  removes the highlight range and keeps the old folder matches in the closure
  \<open>disposePastResults\<close>, and there they stay through every operation but a call of
  the setter. While they do, every \<open>add\<close> that returns, the first and each later
  one, makes its \<open>addFileMatch\<close> calls and then calls \<open>clear()\<close> on each old
  folder match and \<open>dispose()\<close> on each, and the heading's \<open>dispose\<close> ends with
  the same calls. A call of the setter, with a query or with null, puts the folder
  matches current at that call into the closure in their place.
\<close>

theorem set_query_defers_teardown:
  assumes "instances_fresh h"
      and "\<forall>op\<in>set ops. \<not> is_set_query op"
  shows "(\<forall>fm\<in>set (folderMatches h).
            fm \<notin> set (folderMatches (run_ops findSubstr ops (fst (set_query (Some q) h)))))
    \<and> snd (set_query (Some q) h) = [RangeHighlightDecorations_removeHighlightRange (h_id h)]
    \<and> h_disposePastResults (run_ops findSubstr ops (fst (set_query (Some q) h)))
        = Some (folderMatches h)
    \<and> (\<forall>h' calls.
          add findSubstr allRaw searchInstanceID ai silent
              (run_ops findSubstr ops (fst (set_query (Some q) h)))
            = Inr (h', calls)
          \<longrightarrow> (\<exists>added.
                 calls = added
                   @ map (\<lambda>match. FolderMatch_clear match None) (folderMatches h)
                   @ map FolderMatch_dispose (folderMatches h)
                 \<and> (\<forall>c\<in>set added. \<exists>fm raw s i a. c = FolderMatch_addFileMatch fm raw s i a))
              \<and> h_disposePastResults h' = Some (folderMatches h))
    \<and> (\<exists>before.
          snd (dispose (run_ops findSubstr ops (fst (set_query (Some q) h))))
            = before
              @ map (\<lambda>match. FolderMatch_clear match None) (folderMatches h)
              @ map FolderMatch_dispose (folderMatches h))
    \<and> h_disposePastResults
          (fst (set_query query' (run_ops findSubstr ops (fst (set_query (Some q) h)))))
        = Some (folderMatches (run_ops findSubstr ops (fst (set_query (Some q) h))))"
proof -
  let ?h' = "fst (set_query (Some q) h)"
  let ?k = "run_ops findSubstr ops ?h'"
  have pending: "h_disposePastResults ?k = Some (folderMatches h)"
    using run_ops_keeps_disposePastResults [OF assms(2), of findSubstr ?h']
      set_query_disposePastResults [of "Some q" h] by simp
  have absent: "\<forall>fm\<in>set (folderMatches h). fm \<notin> set (folderMatches ?k)"
  proof
    fix fm
    assume "fm \<in> set (folderMatches h)"
    then have "folder_instance fm < h_created h"
      using assms(1) by (rule old_instances [rotated])
    then have "fm \<notin> set (folderMatches ?h')" using new_instances [of fm q h] by auto
    then show "fm \<notin> set (folderMatches ?k)"
      using run_ops_folderMatches_subset [OF assms(2), of findSubstr ?h'] by auto
  qed
  have after_add: "(\<exists>added.
        calls = added
          @ map (\<lambda>match. FolderMatch_clear match None) (folderMatches h)
          @ map FolderMatch_dispose (folderMatches h)
        \<and> (\<forall>c\<in>set added. \<exists>fm raw s i a. c = FolderMatch_addFileMatch fm raw s i a))
      \<and> h_disposePastResults h' = Some (folderMatches h)"
    if added: "add findSubstr allRaw searchInstanceID ai silent ?k = Inr (h', calls)"
    for h' calls
    using add_calls [OF added] add_frame [OF added] run_disposePastResults_Some [OF pending]
      pending
    by simp
  have disposed: "\<exists>before.
      snd (dispose ?k)
        = before @ map (\<lambda>match. FolderMatch_clear match None) (folderMatches h)
          @ map FolderMatch_dispose (folderMatches h)"
    using dispose_calls [OF pending] by blast
  show ?thesis
    using absent set_query_calls [of "Some q" h] pending after_add disposed
      set_query_disposePastResults [of query' ?k]
    by blast
qed

text \<open>
  The amended C4 on the plain heading with the folder root \<open>/w\<close>: after the second
  query and an \<open>add\<close>, its first folder match is not in \<open>folderMatches()\<close> and is
  still in the closure, and the next \<open>add\<close> calls \<open>clear()\<close> and \<open>dispose()\<close> on
  it.
\<close>

theorem set_query_defers_teardown_witness:
  "instances_fresh (sample_heading PLAIN_TEXT_SEARCH__RESULT_ID)
   \<and> \<not> is_set_query (OpAdd [] ''s'' False False)
   \<and> WorkspaceRoot (FolderMatchWorkspaceRootImpl 0 ''/w'' ''/w'' 0 sample_query
                      PLAIN_TEXT_SEARCH__RESULT_ID False)
       \<in> set (folderMatches (sample_heading PLAIN_TEXT_SEARCH__RESULT_ID))
   \<and> WorkspaceRoot (FolderMatchWorkspaceRootImpl 0 ''/w'' ''/w'' 0 sample_query
                      PLAIN_TEXT_SEARCH__RESULT_ID False)
       \<notin> set (folderMatches (run_ops sample_findSubstr [OpAdd [] ''s'' False False]
                  (sample_heading2 PLAIN_TEXT_SEARCH__RESULT_ID)))
   \<and> add sample_findSubstr [] ''s'' False False
       (run_ops sample_findSubstr [OpAdd [] ''s'' False False]
          (sample_heading2 PLAIN_TEXT_SEARCH__RESULT_ID))
     = Inr (sample_heading2 PLAIN_TEXT_SEARCH__RESULT_ID,
            [FolderMatch_addFileMatch
               (NoRoot (FolderMatchNoRootImpl 3 ''otherFiles'' 2 sample_query
                          PLAIN_TEXT_SEARCH__RESULT_ID)) [] False ''s'' False,
             FolderMatch_clear
               (WorkspaceRoot (FolderMatchWorkspaceRootImpl 0 ''/w'' ''/w'' 0 sample_query
                                 PLAIN_TEXT_SEARCH__RESULT_ID False)) None,
             FolderMatch_clear
               (NoRoot (FolderMatchNoRootImpl 1 ''otherFiles'' 2 sample_query
                          PLAIN_TEXT_SEARCH__RESULT_ID)) None,
             FolderMatch_dispose
               (WorkspaceRoot (FolderMatchWorkspaceRootImpl 0 ''/w'' ''/w'' 0 sample_query
                                 PLAIN_TEXT_SEARCH__RESULT_ID False)),
             FolderMatch_dispose
               (NoRoot (FolderMatchNoRootImpl 1 ''otherFiles'' 2 sample_query
                          PLAIN_TEXT_SEARCH__RESULT_ID))])"
proof -
  have fresh: "instances_fresh (sample_heading PLAIN_TEXT_SEARCH__RESULT_ID)"
    by (simp add: instances_fresh_def sample_heading_value)
  have ops: "\<forall>op\<in>set [OpAdd [] ''s'' False False]. \<not> is_set_query op" by simp
  have old: "WorkspaceRoot (FolderMatchWorkspaceRootImpl 0 ''/w'' ''/w'' 0 sample_query
                      PLAIN_TEXT_SEARCH__RESULT_ID False)
       \<in> set (folderMatches (sample_heading PLAIN_TEXT_SEARCH__RESULT_ID))"
    by (simp add: folderMatches_def sample_heading_value)
  have "WorkspaceRoot (FolderMatchWorkspaceRootImpl 0 ''/w'' ''/w'' 0 sample_query
                      PLAIN_TEXT_SEARCH__RESULT_ID False)
       \<notin> set (folderMatches (run_ops sample_findSubstr [OpAdd [] ''s'' False False]
                  (sample_heading2 PLAIN_TEXT_SEARCH__RESULT_ID)))"
    using old
      set_query_defers_teardown [OF fresh ops, of sample_findSubstr sample_query]
    unfolding sample_heading2_def by blast
  moreover have "run_ops sample_findSubstr [OpAdd [] ''s'' False False]
      (sample_heading2 PLAIN_TEXT_SEARCH__RESULT_ID) = sample_heading2 PLAIN_TEXT_SEARCH__RESULT_ID"
    by (simp add: add_nothing_sample_heading2)
  ultimately show ?thesis using fresh old add_nothing_sample_heading2 by simp
qed


subsection \<open>C1: remove of the search result\<close>

lemma remove_no_error:
  assumes "lookup_in_roots findSubstr h"
  shows "snd (remove findSubstr ms ai h) = None"
proof -
  define fileMatches where "fileMatches =
    concat (map (\<lambda>m. case m of FileInstanceMatch f \<Rightarrow> [f] | FolderMatch _ \<Rightarrow> [])
                (case ms of One m \<Rightarrow> [m] | Many ms \<Rightarrow> ms))"
  from groupFilesByFolder_result [OF assms, of fileMatches]
  obtain byFolder other where
      "groupFilesByFolder findSubstr h fileMatches = Inr (byFolder, other)"
    by blast
  then show ?thesis by (simp add: remove_def Let_def fileMatches_def)
qed

lemma remove_clears:
  assumes "FolderMatch fm \<in> set (elements ms)"
  shows "FolderMatch_clear fm None \<in> set (fst (remove findSubstr ms ai h))"
proof -
  have elems: "(case ms of One m \<Rightarrow> [m] | Many ms \<Rightarrow> ms) = elements ms"
    by (cases ms) simp_all
  define cleared where "cleared =
    concat (map (\<lambda>m. case m of FolderMatch fm \<Rightarrow> [FolderMatch_clear fm None]
                              | FileInstanceMatch _ \<Rightarrow> []) (elements ms))"
  have "FolderMatch_clear fm None \<in> set cleared"
    using assms unfolding cleared_def by (auto intro!: bexI [of _ "FolderMatch fm"])
  moreover have "\<exists>rest. fst (remove findSubstr ms ai h) = cleared @ rest"
    by (auto simp: remove_def Let_def elems cleared_def split: sum.splits)
  ultimately show ?thesis by auto
qed

text \<open>
  C1: when the call on the AI heading returns, as it does on every heading whose
  lookups return its own folder matches, \<open>remove(matches, true)\<close> of the search
  result makes the calls of the AI heading's \<open>remove\<close> and then those of the plain
  heading's \<open>remove\<close> with the same arguments. For either value of \<open>ai\<close> the calls
  end with those of the plain heading, so no removal is restricted to the AI
  heading; a folder match among the matches has \<open>clear()\<close> called on it by both.
\<close>

theorem SearchResult_remove_ai_falls_through:
  assumes "lookup_in_roots findSubstr (aiTextSearchResult sr)"
  shows "SearchResult_remove findSubstr ms True sr
           = (fst (remove findSubstr ms True (aiTextSearchResult sr))
              @ fst (remove findSubstr ms True (plainTextSearchResult sr)),
              snd (remove findSubstr ms True (plainTextSearchResult sr)))
    \<and> (\<forall>ai. \<exists>before.
          fst (SearchResult_remove findSubstr ms ai sr)
            = before @ fst (remove findSubstr ms ai (plainTextSearchResult sr)))
    \<and> (\<forall>fm. FolderMatch fm \<in> set (elements ms)
          \<longrightarrow> FolderMatch_clear fm None
                \<in> set (fst (remove findSubstr ms True (aiTextSearchResult sr)))
              \<and> FolderMatch_clear fm None
                \<in> set (fst (remove findSubstr ms True (plainTextSearchResult sr))))"
proof -
  have returns: "snd (remove findSubstr ms ai (aiTextSearchResult sr)) = None" for ai
    using assms by (rule remove_no_error)
  have both: "SearchResult_remove findSubstr ms True sr
           = (fst (remove findSubstr ms True (aiTextSearchResult sr))
              @ fst (remove findSubstr ms True (plainTextSearchResult sr)),
              snd (remove findSubstr ms True (plainTextSearchResult sr)))"
    by (simp add: SearchResult_remove_def returns)
  have ends: "\<exists>before.
      fst (SearchResult_remove findSubstr ms ai sr)
        = before @ fst (remove findSubstr ms ai (plainTextSearchResult sr))" for ai
    by (cases ai) (simp_all add: SearchResult_remove_def returns)
  show ?thesis using both ends remove_clears by blast
qed

lemma sample_result_headings:
  "plainTextSearchResult sample_result = sample_heading PLAIN_TEXT_SEARCH__RESULT_ID"
  "aiTextSearchResult sample_result = sample_heading AI_TEXT_SEARCH_RESULT_ID"
  by (simp_all add: sample_result_def)

text \<open>
  C1 on the search result whose two headings have the folder root \<open>/w\<close>, for the
  AI heading's folder match and a file match under \<open>/w\<close>: the folder match is
  cleared twice, and the file match is removed from the folder match of the AI
  heading and then from that of the plain heading.
\<close>

theorem SearchResult_remove_ai_falls_through_witness:
  "lookup_in_roots sample_findSubstr (aiTextSearchResult sample_result)
   \<and> SearchResult_remove sample_findSubstr
       (Many [FolderMatch (WorkspaceRoot
                (FolderMatchWorkspaceRootImpl 0 ''/w'' ''/w'' 0 sample_query
                   AI_TEXT_SEARCH_RESULT_ID True)),
              FileInstanceMatch \<lparr> resource = ''/w/a.ts'', results = 3, fileInstance = 7 \<rparr>])
       True sample_result
     = ([FolderMatch_clear
           (WorkspaceRoot (FolderMatchWorkspaceRootImpl 0 ''/w'' ''/w'' 0 sample_query
                             AI_TEXT_SEARCH_RESULT_ID True)) None,
         FolderMatch_remove
           (WorkspaceRoot (FolderMatchWorkspaceRootImpl 0 ''/w'' ''/w'' 0 sample_query
                             AI_TEXT_SEARCH_RESULT_ID True))
           [\<lparr> resource = ''/w/a.ts'', results = 3, fileInstance = 7 \<rparr>],
         FolderMatch_clear
           (WorkspaceRoot (FolderMatchWorkspaceRootImpl 0 ''/w'' ''/w'' 0 sample_query
                             AI_TEXT_SEARCH_RESULT_ID True)) None,
         FolderMatch_remove
           (WorkspaceRoot (FolderMatchWorkspaceRootImpl 0 ''/w'' ''/w'' 0 sample_query
                             PLAIN_TEXT_SEARCH__RESULT_ID False))
           [\<lparr> resource = ''/w/a.ts'', results = 3, fileInstance = 7 \<rparr>]],
        None)"
proof -
  let ?ms = "Many [FolderMatch (WorkspaceRoot
                (FolderMatchWorkspaceRootImpl 0 ''/w'' ''/w'' 0 sample_query
                   AI_TEXT_SEARCH_RESULT_ID True)),
              FileInstanceMatch \<lparr> resource = ''/w/a.ts'', results = 3, fileInstance = 7 \<rparr>]"
  have inv: "lookup_in_roots sample_findSubstr (aiTextSearchResult sample_result)"
    by (simp add: sample_result_headings lookup_in_roots_sample_heading)
  have removed: "remove sample_findSubstr ?ms True (sample_heading i)
      = ([FolderMatch_clear
            (WorkspaceRoot (FolderMatchWorkspaceRootImpl 0 ''/w'' ''/w'' 0 sample_query
                              AI_TEXT_SEARCH_RESULT_ID True)) None,
          FolderMatch_remove
            (WorkspaceRoot (FolderMatchWorkspaceRootImpl 0 ''/w'' ''/w'' 0 sample_query i
                              (i = AI_TEXT_SEARCH_RESULT_ID)))
            [\<lparr> resource = ''/w/a.ts'', results = 3, fileInstance = 7 \<rparr>]],
         None)" for i
    by (simp add: remove_def groupFilesByFolder_def getFolderMatch_def sample_heading_value)
  show ?thesis
    using inv SearchResult_remove_ai_falls_through [OF inv, of ?ms]
    by (simp add: sample_result_headings removed)
qed


subsection \<open>C2: batchRemove\<close>

lemma hide_hidden: "h_hidden (fst (hide h)) \<and> folderMatches (fst (hide h)) = []"
  by (simp add: hide_def clear_def disposeMatches_def folderMatches_def)

lemma hide_calls:
  "PauseableEmitter_pause \<notin> set (snd (hide h)) \<and> PauseableEmitter_resume \<notin> set (snd (hide h))"
  by (auto simp: hide_def snd_clear)

lemma hide_heading_same:
  "textSearchResult i (fst (hide_heading i sr)) = fst (hide (textSearchResult i sr))"
  by (cases i) (simp_all add: hide_heading_def textSearchResult_def)

lemma hide_heading_other:
  "j \<noteq> i \<Longrightarrow> textSearchResult j (fst (hide_heading i sr)) = textSearchResult j sr"
  by (cases i; cases j) (simp_all add: hide_heading_def textSearchResult_def)

lemma hide_heading_calls:
  "PauseableEmitter_pause \<notin> set (snd (hide_heading i sr))
   \<and> PauseableEmitter_resume \<notin> set (snd (hide_heading i sr))"
  by (cases i) (simp_all add: hide_heading_def hide_calls)

text \<open>One round of the loop, by what it does to the element.\<close>

lemma batchRemove_loop_step:
  "batchRemove_loop (e # es) removed sr calls =
     (if arrayContainsElementOrParent e removed then batchRemove_loop es removed sr calls
      else case e of
             ATextSearchHeading i \<Rightarrow>
               batchRemove_loop es removed (fst (hide_heading i sr))
                 (calls @ snd (hide_heading i sr))
           | _ \<Rightarrow>
               if \<not> isFolderMatch e \<or> isFolderMatchWithResource e
               then batchRemove_loop es (removed @ [e]) sr calls
               else batchRemove_loop es removed sr calls)"
  by simp

lemma batchRemove_loop_cases:
  assumes "batchRemove_loop (e # es) removed sr calls = result"
  obtains (covered) "arrayContainsElementOrParent e removed"
      "batchRemove_loop es removed sr calls = result"
    | (heading) i where "e = ATextSearchHeading i" "\<not> arrayContainsElementOrParent e removed"
      "batchRemove_loop es removed (fst (hide_heading i sr)) (calls @ snd (hide_heading i sr))
         = result"
    | (recorded) "\<not> arrayContainsElementOrParent e removed" "\<not> isTextSearchHeading e"
      "\<not> isFolderMatch e \<or> isFolderMatchWithResource e"
      "batchRemove_loop es (removed @ [e]) sr calls = result"
    | (skipped) "\<not> isTextSearchHeading e" "isFolderMatch e" "\<not> isFolderMatchWithResource e"
      "batchRemove_loop es removed sr calls = result"
  using assms unfolding batchRemove_loop_step
  by (cases e) (auto split: if_splits)

lemma batchRemove_loop_calls:
  assumes "batchRemove_loop es removed sr calls = (sr', calls', removed')"
  shows "\<exists>made. calls' = calls @ made
           \<and> PauseableEmitter_pause \<notin> set made \<and> PauseableEmitter_resume \<notin> set made"
  using assms
proof (induction es arbitrary: removed sr calls)
  case Nil
  then show ?case by simp
next
  case (Cons e es)
  from Cons.prems show ?case
  proof (cases rule: batchRemove_loop_cases)
    case (heading i)
    from Cons.IH [OF heading(3)] obtain made where
        "calls' = (calls @ snd (hide_heading i sr)) @ made"
        "PauseableEmitter_pause \<notin> set made" "PauseableEmitter_resume \<notin> set made"
      by blast
    then have "calls' = calls @ (snd (hide_heading i sr) @ made)
        \<and> PauseableEmitter_pause \<notin> set (snd (hide_heading i sr) @ made)
        \<and> PauseableEmitter_resume \<notin> set (snd (hide_heading i sr) @ made)"
      using hide_heading_calls [of i sr] by simp
    then show ?thesis by blast
  qed (auto dest: Cons.IH)
qed

lemma batchRemove_loop_hidden:
  assumes "batchRemove_loop es removed sr calls = (sr', calls', removed')"
      and "\<forall>e\<in>set removed. \<not> isTextSearchHeading e"
      and "ATextSearchHeading i \<in> set es
           \<or> (h_hidden (textSearchResult i sr) \<and> folderMatches (textSearchResult i sr) = [])"
  shows "h_hidden (textSearchResult i sr') \<and> folderMatches (textSearchResult i sr') = []"
  using assms
proof (induction es arbitrary: removed sr calls)
  case Nil
  then show ?case by simp
next
  case (Cons e es)
  have not_covered: "\<not> arrayContainsElementOrParent (ATextSearchHeading k) removed" for k
    using Cons.prems(2) by auto
  from Cons.prems(1) show ?case
  proof (cases rule: batchRemove_loop_cases)
    case covered
    with not_covered have "e \<noteq> ATextSearchHeading i" by auto
    with Cons.prems(3) have "ATextSearchHeading i \<in> set es
        \<or> (h_hidden (textSearchResult i sr) \<and> folderMatches (textSearchResult i sr) = [])"
      by auto
    from Cons.IH [OF covered(2) Cons.prems(2) this] show ?thesis .
  next
    case (heading k)
    have "ATextSearchHeading i \<in> set es
        \<or> (h_hidden (textSearchResult i (fst (hide_heading k sr)))
            \<and> folderMatches (textSearchResult i (fst (hide_heading k sr))) = [])"
    proof (cases "k = i")
      case True
      then show ?thesis by (simp add: hide_heading_same hide_hidden)
    next
      case False
      then have "textSearchResult i (fst (hide_heading k sr)) = textSearchResult i sr"
        by (intro hide_heading_other) simp
      with False Cons.prems(3) heading(1) show ?thesis by auto
    qed
    from Cons.IH [OF heading(3) Cons.prems(2) this] show ?thesis .
  next
    case recorded
    then have "e \<noteq> ATextSearchHeading i" by auto
    with Cons.prems(3) have *: "ATextSearchHeading i \<in> set es
        \<or> (h_hidden (textSearchResult i sr) \<and> folderMatches (textSearchResult i sr) = [])"
      by auto
    have "\<forall>e\<in>set (removed @ [e]). \<not> isTextSearchHeading e"
      using Cons.prems(2) recorded(2) by simp
    from Cons.IH [OF recorded(4) this *] show ?thesis .
  next
    case skipped
    then have "e \<noteq> ATextSearchHeading i" by auto
    with Cons.prems(3) have "ATextSearchHeading i \<in> set es
        \<or> (h_hidden (textSearchResult i sr) \<and> folderMatches (textSearchResult i sr) = [])"
      by auto
    from Cons.IH [OF skipped(4) Cons.prems(2) this] show ?thesis .
  qed
qed

text \<open>
  With the removal in a comment, a batch without a heading leaves the search result
  as it is and calls nothing but \<open>pause\<close> and \<open>resume\<close>.
\<close>

lemma batchRemove_loop_without_heading:
  "\<forall>e\<in>set es. \<not> isTextSearchHeading e \<Longrightarrow>
   fst (batchRemove_loop es removed sr calls) = sr
   \<and> fst (snd (batchRemove_loop es removed sr calls)) = calls"
proof (induction es arbitrary: removed)
  case Nil
  then show ?case by simp
next
  case (Cons e es)
  then show ?case by (cases e) simp_all
qed

lemma batchRemove_without_heading:
  assumes "\<forall>e\<in>set es. \<not> isTextSearchHeading e"
  shows "batchRemove es sr = (sr, [PauseableEmitter_pause, PauseableEmitter_resume])"
  using batchRemove_loop_without_heading [OF assms, of "[]" sr "[]"]
  by (cases "batchRemove_loop es [] sr []") (simp add: batchRemove_def)

text \<open>
  What \<open>batchRemove\<close> does do. It pauses the change emitter, runs the loop and
  resumes the emitter, and the loop calls neither \<open>pause\<close> nor \<open>resume\<close>; every
  heading in the batch is hidden, its \<open>hidden\<close> flag set and its folder matches
  cleared. The loop passes over a folder match without resource, the bucket of the
  other files, by its test \<open>!isFolderMatch(e) || isFolderMatchWithResource(e)\<close>.
\<close>

lemma batchRemove_pauses_and_hides:
  assumes "batchRemove_loop elementsToRemove [] sr [] = (sr', calls, removedElems)"
  shows "batchRemove elementsToRemove sr
           = (sr', [PauseableEmitter_pause] @ calls @ [PauseableEmitter_resume])
    \<and> PauseableEmitter_pause \<notin> set calls \<and> PauseableEmitter_resume \<notin> set calls
    \<and> (\<forall>i. ATextSearchHeading i \<in> set elementsToRemove
          \<longrightarrow> h_hidden (textSearchResult i sr') \<and> folderMatches (textSearchResult i sr') = [])"
proof -
  have "batchRemove elementsToRemove sr
      = (sr', [PauseableEmitter_pause] @ calls @ [PauseableEmitter_resume])"
    using assms by (simp add: batchRemove_def)
  moreover have "PauseableEmitter_pause \<notin> set calls \<and> PauseableEmitter_resume \<notin> set calls"
    using batchRemove_loop_calls [OF assms] by auto
  moreover have "h_hidden (textSearchResult i sr') \<and> folderMatches (textSearchResult i sr') = []"
    if "ATextSearchHeading i \<in> set elementsToRemove" for i
    using batchRemove_loop_hidden [OF assms, of i] that by simp
  ultimately show ?thesis by blast
qed

lemma batchRemove_folder_without_resource:
  "batchRemove [AFolderMatch 1 None (ATextSearchHeading PLAIN_TEXT_SEARCH__RESULT_ID)]
     sample_result
     = (sample_result, [PauseableEmitter_pause, PauseableEmitter_resume])"
  by (simp add: batchRemove_def)

text \<open>
  C2 on a batch of one file match, under the folder match of \<open>/w\<close> of the plain
  heading: the element is not a heading and no ancestor of it is in the batch, so it
  is to be removed from the result tree. \<open>batchRemove\<close> pauses and resumes the
  emitter and calls nothing in between, no \<open>remove\<close> on the folder match of the
  file; the search result is as it was. The call that would remove the element,
  \<open>currentElement.parent().remove(currentElement)\<close>, is in a comment, under the
  function's own comment about removing elements twice, while the sibling
  \<open>batchReplace\<close> does replace each element.
\<close>

theorem batchRemove_leaves_file_match:
  "batchRemove
     [AFileInstanceMatch 5
        (AFolderMatch 0 (Some ''/w'') (ATextSearchHeading PLAIN_TEXT_SEARCH__RESULT_ID))]
     sample_result
     = (sample_result, [PauseableEmitter_pause, PauseableEmitter_resume])"
  by (simp add: batchRemove_def)

end
